theory Spec2Isabelle
  imports Main "HOL-Library.AList"
begin

section \<open>Data model\<close>

text \<open>
  \<^verbatim>\<open>type EnvMap = { [key: string]: string }\<close> (extension.ts, line 7). A JavaScript
  object keeps its string keys in insertion order and holds each key once, so an
  \<open>EnvMap\<close> is an association list of its own properties. \<open>obj[k] = v\<close> is
  \<open>AList.update k v obj\<close>: an existing key keeps its place and takes the new value, a
  new key goes to the end.
\<close>

type_synonym EnvMap = "(string \<times> string) list"

text \<open>\<open>Object.assign(target, src)\<close>, and the spread \<open>{...a, ...b}\<close> built from it.\<close>

definition assignAll :: "('k \<times> 'v) list \<Rightarrow> ('k \<times> 'v) list \<Rightarrow> ('k \<times> 'v) list" where
  "assignAll target src = foldl (\<lambda>m (k, v). AList.update k v m) target src"

definition spread :: "('k \<times> 'v) list \<Rightarrow> ('k \<times> 'v) list" where
  "spread a = assignAll [] a"

definition spread2 :: "('k \<times> 'v) list \<Rightarrow> ('k \<times> 'v) list \<Rightarrow> ('k \<times> 'v) list" where
  "spread2 a b = assignAll (assignAll [] a) b"

subsection \<open>Reading a property\<close>

text \<open>
  The objects of the extension are plain objects: they are made by \<open>{}\<close>, by a spread
  or by dotenv, and their prototype is \<open>Object.prototype\<close>. Reading \<open>obj[k]\<close> gives the
  own property \<open>k\<close> when there is one, and otherwise what \<open>Object.prototype\<close> has under
  that name: \<open>undefined\<close> for most names, but a function for \<open>toString\<close>,
  \<open>constructor\<close> and the other members, and \<open>Object.prototype\<close> itself for
  \<open>__proto__\<close>. So a value that has been read is a string or an inherited member
  (\<open>Member name\<close>), and \<open>jsGet\<close> is \<open>obj[k]\<close> with \<open>None\<close> for \<open>undefined\<close>.
  \<open>jsString\<close> is \<open>String(v)\<close>, as Node prints a native function.

  Writing \<open>out[k] = v\<close> on an object made by \<open>{}\<close> adds or replaces the own property,
  except for \<open>__proto__\<close>, which \<open>Object.prototype\<close> has as a setter: the assignment
  adds no property then (\<open>jsSet\<close>).
\<close>

datatype jsValue = Str string | Member string

type_synonym JsObject = "(string \<times> jsValue) list"

definition objectPrototypeNames :: "string list" where
  "objectPrototypeNames =
     [''constructor'', ''toString'', ''toLocaleString'', ''valueOf'', ''hasOwnProperty'',
      ''isPrototypeOf'', ''propertyIsEnumerable'', ''__defineGetter__'', ''__defineSetter__'',
      ''__lookupGetter__'', ''__lookupSetter__'', ''__proto__'']"

definition jsGet :: "EnvMap \<Rightarrow> string \<Rightarrow> jsValue option" where
  "jsGet obj k =
     (case map_of obj k of
        Some v \<Rightarrow> Some (Str v)
      | None \<Rightarrow> if k \<in> set objectPrototypeNames then Some (Member k) else None)"

definition jsSet :: "string \<Rightarrow> jsValue \<Rightarrow> JsObject \<Rightarrow> JsObject" where
  "jsSet k v out = (if k = ''__proto__'' then out else AList.update k v out)"

definition jsObject :: "EnvMap \<Rightarrow> JsObject" where
  "jsObject env = map (\<lambda>(k, v). (k, Str v)) env"

fun jsString :: "jsValue \<Rightarrow> string" where
  "jsString (Str s) = s"
| "jsString (Member name) =
     (if name = ''__proto__'' then ''[object Object]''
      else if name = ''constructor'' then ''function Object() { [native code] }''
      else ''function '' @ name @ ''() { [native code] }'')"

section \<open>filterEnvByAllowed (extension.ts, lines 229-244)\<close>

text \<open>
  \<^verbatim>\<open>
  function filterEnvByAllowed(env, allowed?) {
    if (!allowed || allowed.length === 0) { return env; }
    const out = {};
    for (const k of allowed) {
      if (env[k] !== undefined) { out[k] = env[k]; }
    }
    return out;
  }
  \<close>
  \<open>allowed\<close> is \<open>string[] | undefined\<close>: \<open>None\<close> is \<open>undefined\<close>. The test
  \<open>env[k] !== undefined\<close> reads \<open>env[k]\<close> through the prototype, so the result can
  hold a value that is not a string.
\<close>

definition filterEnvByAllowed :: "EnvMap \<Rightarrow> string list option \<Rightarrow> JsObject" where
  "filterEnvByAllowed env allowed =
     (case allowed of
        None \<Rightarrow> jsObject env
      | Some ks \<Rightarrow>
          if ks = [] then jsObject env
          else foldl (\<lambda>out k. case jsGet env k of None \<Rightarrow> out | Some v \<Rightarrow> jsSet k v out) [] ks)"

section \<open>The world the extension runs in\<close>

text \<open>
  The state the functions read and write: \<open>process.env\<close>, the extension's
  \<open>context.environmentVariableCollection\<close> and the lines written by
  \<open>console.error\<close>. A function that can throw returns \<open>Inl\<close> of the error and
  the world as the throw left it. \<open>processEnv\<close> holds the variables of the process
  under the names the operating system knows them by (\<open>envName\<close>, below).
\<close>

datatype error = ExpandError | ReadError | ParseError | TypeError

datatype MutatorType = MutatorReplace | MutatorAppend | MutatorPrepend

datatype mutator = Mutator (mtype: MutatorType) (mvalue: string)

type_synonym ProcessEnv = "string \<rightharpoonup> string"

record world =
  processEnv :: ProcessEnv
  collection :: "string \<rightharpoonup> mutator"
  errorLog :: "string list"

definition emptyWorld :: world where
  "emptyWorld = \<lparr>processEnv = Map.empty, collection = Map.empty, errorLog = []\<rparr>"

section \<open>What the extension calls\<close>

text \<open>
  The functions of Node (\<open>path\<close>, \<open>fs\<close>), of the libraries dotenv and
  dotenv-expand, and \<open>process.platform\<close>. They are not part of the repository, so
  every function of the model takes them as one parameter \<open>x\<close>. A library call
  that can throw returns \<open>Inl\<close>. \<open>pathResolve\<close> is \<open>path.resolve\<close> of one path,
  \<open>pathResolve2\<close> of two. \<open>path.dirname\<close> alone is modelled below, because the
  loops of \<open>getParentDirectories\<close> and \<open>findEnvFilesUpwards\<close> end by it.

  \<open>dotenvExpand\<close> is \<open>dotenvExpand.expand({ parsed })\<close>: given \<open>parsed\<close> (whose values
  need not be strings, see \<open>filterEnvByAllowed\<close>) and \<open>process.env\<close> it returns
  \<open>expansion.parsed\<close> (\<open>None\<close> for \<open>undefined\<close>) or throws, and in both cases leaves
  a \<open>process.env\<close> behind.
\<close>

type_synonym expander = "JsObject \<Rightarrow> ProcessEnv \<Rightarrow> (error + EnvMap option) \<times> ProcessEnv"

record externals =
  pathResolve :: "string \<Rightarrow> string"
  pathResolve2 :: "string \<Rightarrow> string \<Rightarrow> string"
  pathJoin :: "string list \<Rightarrow> string"
  existsSync :: "string \<Rightarrow> bool"
  readFileSync :: "string \<Rightarrow> error + string"
  dotenvParse :: "string \<Rightarrow> error + EnvMap"
  dotenvExpand :: expander
  platform :: string

section \<open>process.env\<close>

text \<open>
  \<open>process.env\<close> is an object of Node over the variables of the process. A variable
  is found by its name as the operating system compares names: as it is written on
  POSIX, without regard to case on Windows (\<open>process.env.Path\<close> and
  \<open>process.env.PATH\<close> are one variable there), so \<open>envName\<close> folds the name to upper
  case on \<open>win32\<close> (the letters \<open>a\<close> to \<open>z\<close>: the names are taken to be
  ASCII). Reading \<open>process.env[key]\<close> of a variable that is not set goes
  on to \<open>Object.prototype\<close>, as for any object (\<open>envGet\<close>). \<open>process.env[key] = v\<close>
  sets the variable to \<open>String(v)\<close> (\<open>envSet\<close>), and \<open>delete process.env[key]\<close>
  unsets it (\<open>envDelete\<close>).
\<close>

definition upperChar :: "char \<Rightarrow> char" where
  "upperChar c =
     (case map_of (zip ''abcdefghijklmnopqrstuvwxyz'' ''ABCDEFGHIJKLMNOPQRSTUVWXYZ'') c of
        None \<Rightarrow> c
      | Some u \<Rightarrow> u)"

definition envName :: "externals \<Rightarrow> string \<Rightarrow> string" where
  "envName x key = (if platform x = ''win32'' then map upperChar key else key)"

definition envGet :: "externals \<Rightarrow> ProcessEnv \<Rightarrow> string \<Rightarrow> jsValue option" where
  "envGet x penv key =
     (case penv (envName x key) of
        Some v \<Rightarrow> Some (Str v)
      | None \<Rightarrow> if key \<in> set objectPrototypeNames then Some (Member key) else None)"

definition envSet :: "externals \<Rightarrow> string \<Rightarrow> string \<Rightarrow> ProcessEnv \<Rightarrow> ProcessEnv" where
  "envSet x key v penv = penv(envName x key \<mapsto> v)"

definition envDelete :: "externals \<Rightarrow> string \<Rightarrow> ProcessEnv \<Rightarrow> ProcessEnv" where
  "envDelete x key penv = penv(envName x key := None)"

section \<open>expandVariables (extension.ts, lines 20-58)\<close>

text \<open>
  \<^verbatim>\<open>
  function expandVariables(map: EnvMap, baseEnv: EnvMap = {}): EnvMap {
    if (!map || Object.keys(map).length === 0) { return {}; }
    const parsed = { ...map };
    const touchedKeys = new Set<string>();
    const originalValues = new Map<string, string | undefined>();
    const rememberOriginal = (key: string) => {
      if (!touchedKeys.has(key)) {
        touchedKeys.add(key);
        originalValues.set(key, process.env[key]);
      }
    };
    for (const [key, value] of Object.entries(baseEnv)) {
      rememberOriginal(key);
      process.env[key] = String(value);
    }
    for (const key of Object.keys(parsed)) { rememberOriginal(key); }
    const expansion = dotenvExpand.expand({ parsed });
    const expanded = expansion.parsed ?? {};
    for (const key of touchedKeys) {
      const previous = originalValues.get(key);
      if (previous === undefined) { delete process.env[key]; }
      else { process.env[key] = previous; }
    }
    return expanded;
  }
  \<close>
  \<open>touchedKeys\<close> is a \<open>Set\<close> of the keys as they are written, and \<open>originalValues\<close>
  a \<open>Map\<close> from such a key to what \<open>process.env[key]\<close> gave, which is a string, an
  inherited member or \<open>undefined\<close> (\<open>None\<close>).
\<close>

type_synonym snapshot = "string list \<times> (string \<rightharpoonup> jsValue option)"

definition rememberOriginal :: "externals \<Rightarrow> ProcessEnv \<Rightarrow> string \<Rightarrow> snapshot \<Rightarrow> snapshot" where
  "rememberOriginal x penv key snap =
     (case snap of (touchedKeys, originalValues) \<Rightarrow>
        if key \<in> set touchedKeys then snap
        else (touchedKeys @ [key], originalValues(key \<mapsto> envGet x penv key)))"

fun exposeBase :: "externals \<Rightarrow> EnvMap \<Rightarrow> ProcessEnv \<times> snapshot \<Rightarrow> ProcessEnv \<times> snapshot" where
  "exposeBase x [] st = st"
| "exposeBase x ((key, v) # rest) (penv, snap) =
     exposeBase x rest (envSet x key v penv, rememberOriginal x penv key snap)"

definition rememberParsed :: "externals \<Rightarrow> ProcessEnv \<Rightarrow> JsObject \<Rightarrow> snapshot \<Rightarrow> snapshot" where
  "rememberParsed x penv parsed snap =
     foldl (\<lambda>s key. rememberOriginal x penv key s) snap (map fst parsed)"

definition restoreOriginals :: "externals \<Rightarrow> snapshot \<Rightarrow> ProcessEnv \<Rightarrow> ProcessEnv" where
  "restoreOriginals x snap penv =
     (case snap of (touchedKeys, originalValues) \<Rightarrow>
        foldl (\<lambda>e key. case originalValues key of
                           Some (Some previous) \<Rightarrow> envSet x key (jsString previous) e
                         | _ \<Rightarrow> envDelete x key e)
          penv touchedKeys)"

definition expandVariables :: "externals \<Rightarrow> JsObject \<Rightarrow> EnvMap \<Rightarrow> world \<Rightarrow> (error + EnvMap) \<times> world" where
  "expandVariables x m baseEnv w =
     (if m = [] then (Inr [], w)
      else
        let parsed = spread m;
            (penv1, snap1) = exposeBase x baseEnv (processEnv w, ([], Map.empty));
            snap2 = rememberParsed x penv1 parsed snap1;
            (expansion, penv2) = dotenvExpand x parsed penv1
        in case expansion of
             Inl e \<Rightarrow> (Inl e, w\<lparr>processEnv := penv2\<rparr>)
           | Inr res \<Rightarrow>
               (Inr (case res of None \<Rightarrow> [] | Some expanded \<Rightarrow> expanded),
                w\<lparr>processEnv := restoreOriginals x snap2 penv2\<rparr>))"

text \<open>
  What \<open>expandVariables\<close> relies on when it remembers the keys of \<open>parsed\<close>: the
  library writes to \<open>process.env\<close> under those keys only.
\<close>

definition writesOnlyParsedKeys :: "externals \<Rightarrow> bool" where
  "writesOnlyParsedKeys x =
     (\<forall>parsed env n. n \<notin> envName x ` fst ` set parsed \<longrightarrow> snd (dotenvExpand x parsed env) n = env n)"

text \<open>
  Three expanders for concrete runs on a POSIX host, for values that hold no
  reference. All throw on a value that is not a string, as dotenv-expand does when it
  calls a string method on it. \<open>literalExpand\<close> returns \<open>parsed\<close> as it is and writes
  each of its keys that \<open>process.env\<close> does not have yet. \<open>envFirstExpand\<close> is
  dotenv-expand's rule that the process wins: a variable that \<open>process.env\<close> already
  has, with a value that is not empty and not the one of \<open>parsed\<close>, keeps the value of
  \<open>process.env\<close>, and the results are written to \<open>process.env\<close>. \<open>failingExpand\<close>
  throws.
\<close>

fun stringEntries :: "JsObject \<Rightarrow> EnvMap option" where
  "stringEntries [] = Some []"
| "stringEntries ((k, Str v) # rest) = map_option (\<lambda>m. (k, v) # m) (stringEntries rest)"
| "stringEntries ((k, Member name) # rest) = None"

definition literalExpand :: expander where
  "literalExpand parsed env =
     (case stringEntries parsed of
        None \<Rightarrow> (Inl TypeError, env)
      | Some m \<Rightarrow>
          (Inr (Some m), foldl (\<lambda>e (k, v). if e k = None then e(k \<mapsto> v) else e) env m))"

definition envFirstValue :: "ProcessEnv \<Rightarrow> string \<Rightarrow> string \<Rightarrow> string" where
  "envFirstValue env k v =
     (case env k of None \<Rightarrow> v | Some e \<Rightarrow> if e \<noteq> [] \<and> e \<noteq> v then e else v)"

definition envFirstExpand :: expander where
  "envFirstExpand parsed env =
     (case stringEntries parsed of
        None \<Rightarrow> (Inl TypeError, env)
      | Some m \<Rightarrow>
          (Inr (Some (map (\<lambda>(k, v). (k, envFirstValue env k v)) m)),
           foldl (\<lambda>e (k, v). e(k \<mapsto> envFirstValue env k v)) env m))"

definition failingExpand :: expander where
  "failingExpand parsed env = (Inl ExpandError, env)"

section \<open>path.dirname (Node, POSIX)\<close>

text \<open>
  Node's \<open>path.posix.dirname\<close> scans the path from its last character down to
  index 1: it skips trailing slashes, then the last segment, and cuts the path at the
  slash before that segment (\<open>end\<close>). With no such slash the result is \<open>/\<close> for a
  path that starts with a slash and \<open>.\<close> otherwise; \<open>end = 1\<close> on a rooted path
  gives \<open>//\<close>. Here \<open>r\<close> is what the scan has left when it stops, so
  \<open>end = length r\<close>.
\<close>

definition dirname :: "string \<Rightarrow> string" where
  "dirname p =
     (if p = [] then ''.''
      else
        let hasRoot = (hd p = CHR ''/'');
            r = dropWhile (\<lambda>c. c \<noteq> CHR ''/'') (dropWhile (\<lambda>c. c = CHR ''/'') (rev (tl p)))
        in if r = [] then (if hasRoot then ''/'' else ''.'')
           else if hasRoot \<and> length r = 1 then ''//''
           else take (length r) p)"

text \<open>The measure that decreases along \<open>dirname\<close> until its fixed point.\<close>

definition pathMeasure :: "string \<Rightarrow> nat" where
  "pathMeasure p = (if p = ''/'' \<or> p = ''.'' then 0 else Suc (length p))"

lemma length_dropWhile_less:
  "xs \<noteq> [] \<Longrightarrow> P (hd xs) \<Longrightarrow> length (dropWhile P xs) < length xs"
  by (cases xs) (auto simp: length_dropWhile_le le_imp_less_Suc)

lemma dirname_scan_short:
  assumes "r = dropWhile (\<lambda>c. c \<noteq> CHR ''/'') (dropWhile (\<lambda>c. c = CHR ''/'') (rev (tl p)))"
    and "r \<noteq> []"
  shows "Suc (Suc (length r)) \<le> length p"
proof -
  define r1 where "r1 = dropWhile (\<lambda>c. c = CHR ''/'') (rev (tl p))"
  have r: "r = dropWhile (\<lambda>c. c \<noteq> CHR ''/'') r1" using assms(1) by (simp add: r1_def)
  have ne: "r1 \<noteq> []" using assms(2) r by auto
  then have "hd r1 \<noteq> CHR ''/''" unfolding r1_def using hd_dropWhile[of "\<lambda>c. c = CHR ''/''" "rev (tl p)"] by simp
  then have "length r < length r1" unfolding r using ne by (intro length_dropWhile_less) auto
  moreover have "length r1 \<le> length (tl p)" unfolding r1_def
    using length_dropWhile_le[of "\<lambda>c. c = CHR ''/''" "rev (tl p)"] by simp
  ultimately show ?thesis by (cases p) auto
qed

lemma dirname_root: "dirname ''/'' = ''/''"
  by (simp add: dirname_def)

lemma dirname_dot: "dirname ''.'' = ''.''"
  by (simp add: dirname_def)

lemma dirname_unfold:
  "p \<noteq> [] \<Longrightarrow>
   r = dropWhile (\<lambda>c. c \<noteq> CHR ''/'') (dropWhile (\<lambda>c. c = CHR ''/'') (rev (tl p))) \<Longrightarrow>
   dirname p = (if r = [] then (if hd p = CHR ''/'' then ''/'' else ''.'')
                else if hd p = CHR ''/'' \<and> length r = 1 then ''//''
                else take (length r) p)"
  by (simp only: dirname_def Let_def if_False)

lemma dirname_decreases: "dirname p \<noteq> p \<Longrightarrow> pathMeasure (dirname p) < pathMeasure p"
proof -
  assume d: "dirname p \<noteq> p"
  define r where "r = dropWhile (\<lambda>c. c \<noteq> CHR ''/'') (dropWhile (\<lambda>c. c = CHR ''/'') (rev (tl p)))"
  show ?thesis
  proof (cases "p = []")
    case True
    then show ?thesis by (simp add: dirname_def pathMeasure_def)
  next
    case False
    show ?thesis
    proof (cases "r = []")
      case True
      have "dirname p = (if hd p = CHR ''/'' then ''/'' else ''.'')"
        using dirname_unfold[OF False r_def] True by simp
      moreover have "p \<noteq> ''/''" using d dirname_root by metis
      moreover have "p \<noteq> ''.''" using d dirname_dot by metis
      ultimately show ?thesis by (simp add: pathMeasure_def)
    next
      case nonempty: False
      have len: "Suc (Suc (length r)) \<le> length p"
        using r_def nonempty by (rule dirname_scan_short)
      have "dirname p = ''//'' \<or> dirname p = take (length r) p"
        using dirname_unfold[OF False r_def] nonempty by simp
      then show ?thesis
      proof
        assume "dirname p = ''//''"
        moreover have "3 \<le> length p" using len nonempty by (cases r) auto
        ultimately show ?thesis by (auto simp: pathMeasure_def)
      next
        assume t: "dirname p = take (length r) p"
        have "length (dirname p) = length r" using len by (simp add: t)
        then have "pathMeasure (dirname p) \<le> Suc (length r)" by (simp add: pathMeasure_def)
        moreover have "pathMeasure p = Suc (length p)"
          using len nonempty by (cases r) (auto simp: pathMeasure_def)
        ultimately show ?thesis using len by simp
      qed
    qed
  qed
qed

section \<open>getParentDirectories (extension.ts, lines 60-78)\<close>

text \<open>
  \<^verbatim>\<open>
  /**
   * Get all parent directories from a given path up to the filesystem root.
   * Returns paths in order from root to the given path (parents first).
   */
  function getParentDirectories(startPath: string): string[] {
    const paths: string[] = [];
    let current = path.resolve(startPath);
    while (true) {
      paths.push(current);
      const parent = path.dirname(current);
      if (parent === current) { break; } // reached root
      current = parent;
    }
    return paths;
  }
  \<close>
\<close>

function getParentDirectories_loop :: "string \<Rightarrow> string list \<Rightarrow> string list" where
  "getParentDirectories_loop current paths =
     (let paths' = paths @ [current];
          parent = dirname current
      in if parent = current then paths' else getParentDirectories_loop parent paths')"
  by pat_completeness auto
termination
  by (relation "measure (\<lambda>(current, paths). pathMeasure current)") (auto simp: dirname_decreases)

definition getParentDirectories :: "externals \<Rightarrow> string \<Rightarrow> string list" where
  "getParentDirectories x startPath = getParentDirectories_loop (pathResolve x startPath) []"

section \<open>findEnvFilesUpwards (extension.ts, lines 80-105)\<close>

text \<open>
  \<^verbatim>\<open>
  function findEnvFilesUpwards(startFolderFsPath, envFileName = DEFAULT_ENV_FILE_NAME) {
    // Return list of absolute .env file paths from filesystem root -> startFolder (parents first)
    const envPaths: string[] = [];
    let current = path.resolve(startFolderFsPath);
    while (true) {
      for (const candidate of [
        path.join(current, ".vscode", envFileName),
        path.join(current, envFileName),
      ]) {
        if (fs.existsSync(candidate)) { envPaths.unshift(candidate); }
      }
      const parent = path.dirname(current);
      if (parent === current) { break; } // reached root
      current = parent;
    }
    return envPaths;
  }
  \<close>
  \<open>unshift\<close> puts the candidate in front of the list.
\<close>

definition DEFAULT_ENV_FILE_NAME :: string where
  "DEFAULT_ENV_FILE_NAME = ''.env''"

function findEnvFilesUpwards_loop :: "externals \<Rightarrow> string \<Rightarrow> string \<Rightarrow> string list \<Rightarrow> string list" where
  "findEnvFilesUpwards_loop x envFileName current envPaths =
     (let envPaths' =
            foldl (\<lambda>acc candidate. if existsSync x candidate then candidate # acc else acc) envPaths
              [pathJoin x [current, ''.vscode'', envFileName], pathJoin x [current, envFileName]];
          parent = dirname current
      in if parent = current then envPaths'
         else findEnvFilesUpwards_loop x envFileName parent envPaths')"
  by pat_completeness auto
termination
  by (relation "measure (\<lambda>(x, envFileName, current, envPaths). pathMeasure current)")
     (auto simp: dirname_decreases)

definition findEnvFilesUpwards :: "externals \<Rightarrow> string \<Rightarrow> string \<Rightarrow> string list" where
  "findEnvFilesUpwards x startFolderFsPath envFileName =
     findEnvFilesUpwards_loop x envFileName (pathResolve x startFolderFsPath) []"

section \<open>parseEnvFiles and readEnvFiles (extension.ts, lines 107-145)\<close>

text \<open>
  \<^verbatim>\<open>
  function parseEnvFiles(paths: string[], expansionBase: EnvMap = {}): EnvMap {
    const merged: EnvMap = {};
    for (const p of paths) {
      try {
        const content = fs.readFileSync(p, { encoding: "utf8" });
        const parsed = dotenv.parse(content);
        for (const [k, v] of Object.entries(parsed)) {
          // later files (closer to workspace) will overwrite previous keys
          merged[k] = String(v);
        }
      } catch (err) {
        console.error(`Environ: failed to parse ${p}:`, err);
      }
    }
    return expandVariables(merged, expansionBase);
  }
  \<close>
  The loop carries \<open>merged\<close> and the console. Reading and parsing come before the
  first assignment to \<open>merged\<close>, so a file that throws leaves \<open>merged\<close> as it was.
\<close>

definition failedToParse :: "string \<Rightarrow> string" where
  "failedToParse p = ''Environ: failed to parse '' @ p @ '':''"

fun parseEnvFiles_loop :: "externals \<Rightarrow> string list \<Rightarrow> EnvMap \<times> string list \<Rightarrow> EnvMap \<times> string list" where
  "parseEnvFiles_loop x [] st = st"
| "parseEnvFiles_loop x (p # ps) (merged, console) =
     parseEnvFiles_loop x ps
       (case readFileSync x p of
          Inl err \<Rightarrow> (merged, console @ [failedToParse p])
        | Inr content \<Rightarrow>
            (case dotenvParse x content of
               Inl err \<Rightarrow> (merged, console @ [failedToParse p])
             | Inr parsed \<Rightarrow> (assignAll merged parsed, console)))"

definition parseEnvFiles :: "externals \<Rightarrow> string list \<Rightarrow> EnvMap \<Rightarrow> world \<Rightarrow> (error + EnvMap) \<times> world" where
  "parseEnvFiles x paths expansionBase w =
     (let (merged, console) = parseEnvFiles_loop x paths ([], errorLog w)
      in expandVariables x (jsObject merged) expansionBase (w\<lparr>errorLog := console\<rparr>))"

text \<open>
  \<^verbatim>\<open>
  function readEnvFiles(folder, envFileName = getEnvFileName(), expansionBase = {}): EnvMap | null {
    const start = folder.uri.fsPath;
    const envPaths = findEnvFilesUpwards(start, envFileName);
    if (!envPaths || envPaths.length === 0) { return null; }
    return parseEnvFiles(envPaths, expansionBase);
  }
  \<close>
  A workspace folder is its \<open>uri.fsPath\<close>.
\<close>

definition readEnvFiles :: "externals \<Rightarrow> string \<Rightarrow> string \<Rightarrow> EnvMap \<Rightarrow> world \<Rightarrow> (error + EnvMap option) \<times> world" where
  "readEnvFiles x folder envFileName expansionBase w =
     (let envPaths = findEnvFilesUpwards x folder envFileName
      in if envPaths = [] then (Inr None, w)
         else (case parseEnvFiles x envPaths expansionBase w of
                 (Inl e, w') \<Rightarrow> (Inl e, w')
               | (Inr m, w') \<Rightarrow> (Inr (Some m), w')))"

section \<open>Configuration (extension.ts, lines 9-16)\<close>

text \<open>
  \<^verbatim>\<open>
  type MergeStrategy = "replace" | "prepend" | "append";
  type MergeStrategies = { [variableName: string]: MergeStrategy };
  type PathResolves = { [variableName: string]: string };
  const DEFAULT_MERGE_STRATEGIES: MergeStrategies = { PATH: "prepend" };
  const pathSeparator = process.platform === "win32" ? ";" : ":";
  \<close>
  The settings under \<open>environ\<close> that the pipeline reads with
  \<open>config.get(name, default)\<close>; \<open>None\<close> is a setting that is not set.
\<close>

datatype MergeStrategy = StrategyReplace | StrategyPrepend | StrategyAppend

record config =
  presets :: "EnvMap option"
  pathResolves :: "EnvMap option"
  envFileName :: "string option"
  prependCwdComponentsToPath :: "bool option"
  mergeStrategies :: "(string \<rightharpoonup> MergeStrategy) option"

definition configGet :: "'a option \<Rightarrow> 'a \<Rightarrow> 'a" where
  "configGet setting dflt = (case setting of None \<Rightarrow> dflt | Some v \<Rightarrow> v)"

definition DEFAULT_MERGE_STRATEGIES :: "string \<rightharpoonup> MergeStrategy" where
  "DEFAULT_MERGE_STRATEGIES = [''PATH'' \<mapsto> StrategyPrepend]"

definition pathSeparator :: "externals \<Rightarrow> string" where
  "pathSeparator x = (if platform x = ''win32'' then '';'' else '':'')"

text \<open>\<open>a || b\<close> and \<open>a && b\<close> on strings: the empty string is the falsy one.\<close>

definition jsOr :: "string \<Rightarrow> string \<Rightarrow> string" where
  "jsOr a b = (if a = [] then b else a)"

definition jsAnd :: "string \<Rightarrow> string \<Rightarrow> string" where
  "jsAnd a b = (if a = [] then a else b)"

section \<open>resolveEnvironments and getConfiguredEnvironment (extension.ts, lines 246-296)\<close>

text \<open>
  \<^verbatim>\<open>
  function resolveEnvironments(folder, variables: EnvMap) {
    const config = vscode.workspace.getConfiguration("environ");
    const pathResolves = config.get<PathResolves>("pathResolves", {});
    const resolved: EnvMap = { ...variables };
    for (const [key, value] of Object.entries(pathResolves)) {
      resolved[key] = path.resolve(value || folder.uri.fsPath, resolved[key] || value);
      process.env[key] = resolved[key];
    }
    return resolved;
  }
  \<close>
\<close>

text \<open>
  \<open>resolved[key] || value\<close> reads \<open>resolved[key]\<close> through the prototype. When
  \<open>key\<close> is no own property of \<open>resolved\<close> but a member of \<open>Object.prototype\<close>, the
  second argument of \<open>path.resolve\<close> is that member and not a string, and
  \<open>path.resolve\<close> throws a \<open>TypeError\<close>; what the loop wrote before stays written.
\<close>

fun resolveEnvironments_loop :: "externals \<Rightarrow> string \<Rightarrow> EnvMap \<Rightarrow> EnvMap \<times> ProcessEnv \<Rightarrow> (error + EnvMap) \<times> ProcessEnv" where
  "resolveEnvironments_loop x folder [] (resolved, penv) = (Inr resolved, penv)"
| "resolveEnvironments_loop x folder ((key, v) # rest) (resolved, penv) =
     (case jsGet resolved key of
        Some (Member name) \<Rightarrow> (Inl TypeError, penv)
      | Some (Str cur) \<Rightarrow>
          (let r = pathResolve2 x (jsOr v folder) (jsOr cur v)
           in resolveEnvironments_loop x folder rest (AList.update key r resolved, envSet x key r penv))
      | None \<Rightarrow>
          (let r = pathResolve2 x (jsOr v folder) v
           in resolveEnvironments_loop x folder rest (AList.update key r resolved, envSet x key r penv)))"

definition resolveEnvironments :: "externals \<Rightarrow> config \<Rightarrow> string \<Rightarrow> EnvMap \<Rightarrow> world \<Rightarrow> (error + EnvMap) \<times> world" where
  "resolveEnvironments x cfg folder variables w =
     (case resolveEnvironments_loop x folder (configGet (pathResolves cfg) [])
             (spread variables, processEnv w) of
        (res, penv) \<Rightarrow> (res, w\<lparr>processEnv := penv\<rparr>))"

text \<open>
  \<^verbatim>\<open>
  function getConfiguredEnvironment(folder) {
    const config = vscode.workspace.getConfiguration("environ");
    const presets = config.get<EnvMap>("presets", {});
    const resolvedPresets: EnvMap = resolveEnvironments(folder, { ...presets });
    const envFileName = config.get<string>("envFileName", DEFAULT_ENV_FILE_NAME);
    const envFromFiles = readEnvFiles(folder, envFileName, presets) ?? {};
    const combined: EnvMap = resolveEnvironments(folder, { ...resolvedPresets, ...envFromFiles });
    const allowed = getAllowedForFolder(folder);
    const filtered = expandVariables(filterEnvByAllowed(combined, allowed));
    return { config, presets, envFromFiles, combined, filtered, allowed };
  }
  \<close>
  \<open>getAllowedForFolder\<close> reads the workspace state of the editor: its answer is the
  parameter \<open>allowedForFolder\<close>.
\<close>

record configured =
  cPresets :: EnvMap
  cEnvFromFiles :: EnvMap
  cCombined :: EnvMap
  cFiltered :: EnvMap
  cAllowed :: "string list option"

definition getConfiguredEnvironment :: "externals \<Rightarrow> config \<Rightarrow> string list option \<Rightarrow> string \<Rightarrow> world \<Rightarrow> (error + configured) \<times> world" where
  "getConfiguredEnvironment x cfg allowedForFolder folder w =
     (let ps = configGet (presets cfg) [];
          name = configGet (envFileName cfg) DEFAULT_ENV_FILE_NAME
      in case resolveEnvironments x cfg folder (spread ps) w of
           (Inl e, w1) \<Rightarrow> (Inl e, w1)
         | (Inr resolvedPresets, w1) \<Rightarrow>
             (case readEnvFiles x folder name ps w1 of
                (Inl e, w2) \<Rightarrow> (Inl e, w2)
              | (Inr fromFiles, w2) \<Rightarrow>
                  (let envFromFiles = (case fromFiles of None \<Rightarrow> [] | Some m \<Rightarrow> m)
                   in case resolveEnvironments x cfg folder (spread2 resolvedPresets envFromFiles) w2 of
                        (Inl e, w3) \<Rightarrow> (Inl e, w3)
                      | (Inr combined, w3) \<Rightarrow>
                          (case expandVariables x (filterEnvByAllowed combined allowedForFolder) [] w3 of
                             (Inl e, w4) \<Rightarrow> (Inl e, w4)
                           | (Inr filtered, w4) \<Rightarrow>
                               (Inr \<lparr>cPresets = ps, cEnvFromFiles = envFromFiles, cCombined = combined,
                                     cFiltered = filtered, cAllowed = allowedForFolder\<rparr>, w4)))))"

section \<open>The environment variable collection of the editor\<close>

text \<open>
  \<open>context.environmentVariableCollection\<close> is an object of the editor, not of the
  repository. Its interface (\<open>vscode.EnvironmentVariableCollection\<close>) holds at most
  one mutator per variable: \<open>replace\<close>, \<open>append\<close> and \<open>prepend\<close> each store a
  mutator of their type with the value they are given and overwrite the variable's
  earlier mutator ("an extension can only make a single change to any one variable, so
  this will overwrite any previous calls to replace, append or prepend");
  \<open>get(variable)\<close> returns the stored mutator or \<open>undefined\<close>, which is why the
  source reads \<open>get(key)?.value\<close>.
\<close>

definition collectionReplace :: "string \<Rightarrow> string \<Rightarrow> (string \<rightharpoonup> mutator) \<Rightarrow> (string \<rightharpoonup> mutator)" where
  "collectionReplace variable v coll = coll(variable \<mapsto> Mutator MutatorReplace v)"

definition collectionAppend :: "string \<Rightarrow> string \<Rightarrow> (string \<rightharpoonup> mutator) \<Rightarrow> (string \<rightharpoonup> mutator)" where
  "collectionAppend variable v coll = coll(variable \<mapsto> Mutator MutatorAppend v)"

definition collectionPrepend :: "string \<Rightarrow> string \<Rightarrow> (string \<rightharpoonup> mutator) \<Rightarrow> (string \<rightharpoonup> mutator)" where
  "collectionPrepend variable v coll = coll(variable \<mapsto> Mutator MutatorPrepend v)"

definition collectionGetValue :: "(string \<rightharpoonup> mutator) \<Rightarrow> string \<Rightarrow> string option" where
  "collectionGetValue coll variable = (case coll variable of None \<Rightarrow> None | Some m \<Rightarrow> Some (mvalue m))"

section \<open>updateEnvironmentVariableCollection (extension.ts, lines 300-404)\<close>

text \<open>
  \<^verbatim>\<open>
  function updateEnvironmentVariableCollection(folder = primaryWorkspaceFolder) {
    if (!folder) { return {}; }
    const { config, filtered } = getConfiguredEnvironment(folder);
    if (Object.keys(filtered).length === 0) { return {}; }
    const prependPaths = config.get<boolean>("prependCwdComponentsToPath", true);
    const mergeStrategies = config.get<MergeStrategies>("mergeStrategies", DEFAULT_MERGE_STRATEGIES);
    const ensured: EnvMap = {};
    for (const [key, value] of Object.entries(filtered)) {
      const strategy = mergeStrategies[key] || "replace";
      const currentValue = context.environmentVariableCollection.get(key)?.value ?? "";
      if (strategy === "prepend") {
        context.environmentVariableCollection.prepend(key, value + (currentValue && pathSeparator), options);
      } else if (strategy === "append") {
        context.environmentVariableCollection.append(key, (currentValue && pathSeparator) + value, options);
      } else {
        context.environmentVariableCollection.replace(key, value, options);
      }
      ensured[key] = context.environmentVariableCollection.get(key)?.value!;
      process.env[key] = ensured[key];
    }
    if (prependPaths) {
      const workspacePath = folder.uri.fsPath;
      const directories = getParentDirectories(workspacePath);
      const prependString = directories.join(pathSeparator) + pathSeparator;
      context.environmentVariableCollection.prepend("PATH", prependString);
      const ensuredPath = context.environmentVariableCollection.get("PATH")?.value;
      if (ensuredPath !== undefined) {
        ensured.PATH = ensuredPath;
        process.env.PATH = ensuredPath;
      }
    }
    ... (the commands environ.$KEY are registered again; a failure is caught)
    return ensured;
  }
  \<close>
  \<open>mergeVariable\<close> is one round of the loop over \<open>filtered\<close>, \<open>prependCwdComponents\<close>
  the block under \<open>if (prependPaths)\<close>, and \<open>applyFiltered\<close> everything after the
  call of \<open>getConfiguredEnvironment\<close>. The registration of commands changes neither
  \<open>process.env\<close> nor the collection and is left out.
\<close>

definition mergeVariable :: "externals \<Rightarrow> (string \<rightharpoonup> MergeStrategy) \<Rightarrow> EnvMap \<times> world \<Rightarrow> string \<times> string \<Rightarrow> EnvMap \<times> world" where
  "mergeVariable x strategies st entry =
     (case (st, entry) of ((ensured, w), (key, v)) \<Rightarrow>
        let strategy = (case strategies key of None \<Rightarrow> StrategyReplace | Some s \<Rightarrow> s);
            currentValue = (case collectionGetValue (collection w) key of None \<Rightarrow> [] | Some cur \<Rightarrow> cur);
            coll = (if strategy = StrategyPrepend then
                      collectionPrepend key (v @ jsAnd currentValue (pathSeparator x)) (collection w)
                    else if strategy = StrategyAppend then
                      collectionAppend key (jsAnd currentValue (pathSeparator x) @ v) (collection w)
                    else collectionReplace key v (collection w))
        in (case collectionGetValue coll key of
              None \<Rightarrow> (ensured, w\<lparr>collection := coll\<rparr>)
            | Some e \<Rightarrow>
                (AList.update key e ensured,
                 w\<lparr>collection := coll, processEnv := envSet x key e (processEnv w)\<rparr>)))"

fun joinWith :: "string \<Rightarrow> string list \<Rightarrow> string" where
  "joinWith sep [] = []"
| "joinWith sep [d] = d"
| "joinWith sep (d # e # ds) = d @ sep @ joinWith sep (e # ds)"

definition prependCwdComponents :: "externals \<Rightarrow> string \<Rightarrow> EnvMap \<times> world \<Rightarrow> EnvMap \<times> world" where
  "prependCwdComponents x folder st =
     (case st of (ensured, w) \<Rightarrow>
        let directories = getParentDirectories x folder;
            prependString = joinWith (pathSeparator x) directories @ pathSeparator x;
            coll = collectionPrepend ''PATH'' prependString (collection w)
        in (case collectionGetValue coll ''PATH'' of
              None \<Rightarrow> (ensured, w\<lparr>collection := coll\<rparr>)
            | Some ensuredPath \<Rightarrow>
                (AList.update ''PATH'' ensuredPath ensured,
                 w\<lparr>collection := coll, processEnv := envSet x ''PATH'' ensuredPath (processEnv w)\<rparr>)))"

definition applyFiltered :: "externals \<Rightarrow> config \<Rightarrow> string \<Rightarrow> EnvMap \<Rightarrow> world \<Rightarrow> EnvMap \<times> world" where
  "applyFiltered x cfg folder filtered w =
     (if filtered = [] then ([], w)
      else
        let prependPaths = configGet (prependCwdComponentsToPath cfg) True;
            strategies = configGet (mergeStrategies cfg) DEFAULT_MERGE_STRATEGIES;
            merged = foldl (mergeVariable x strategies) ([], w) filtered
        in if prependPaths then prependCwdComponents x folder merged else merged)"

definition updateEnvironmentVariableCollection :: "externals \<Rightarrow> config \<Rightarrow> string list option \<Rightarrow> string option \<Rightarrow> world \<Rightarrow> (error + EnvMap) \<times> world" where
  "updateEnvironmentVariableCollection x cfg allowedForFolder folder w =
     (case folder of
        None \<Rightarrow> (Inr [], w)
      | Some f \<Rightarrow>
          (case getConfiguredEnvironment x cfg allowedForFolder f w of
             (Inl e, w1) \<Rightarrow> (Inl e, w1)
           | (Inr conf, w1) \<Rightarrow>
               (case applyFiltered x cfg f (cFiltered conf) w1 of
                  (ensured, w2) \<Rightarrow> (Inr ensured, w2))))"

section \<open>A POSIX host for concrete runs\<close>

text \<open>
  The concrete runs below need the library functions at a few inputs.
  \<open>posixHost files expand\<close> is a Linux host whose file system holds \<open>files\<close> (a
  path with \<open>None\<close> exists but cannot be read) and whose dotenv-expand is
  \<open>expand\<close>. Its path functions agree with Node's on absolute, normalised paths and
  plain segments, which is all the runs give them; its parser reads files of
  \<open>KEY=VALUE\<close> lines and \<open>#\<close> comments, as dotenv does.
\<close>

definition joinTwo :: "string \<Rightarrow> string \<Rightarrow> string" where
  "joinTwo a b = (if a = ''/'' then a @ b else a @ ''/'' @ b)"

definition posixJoin :: "string list \<Rightarrow> string" where
  "posixJoin parts = (case parts of [] \<Rightarrow> ''.'' | a # rest \<Rightarrow> foldl joinTwo a rest)"

definition posixResolve2 :: "string \<Rightarrow> string \<Rightarrow> string" where
  "posixResolve2 a b = (if b = [] then a else if hd b = CHR ''/'' then b else joinTwo a b)"

fun splitAt :: "char \<Rightarrow> string \<Rightarrow> string list" where
  "splitAt d [] = [[]]"
| "splitAt d (c # cs) =
     (if c = d then [] # splitAt d cs
      else (case splitAt d cs of [] \<Rightarrow> [[c]] | l # ls \<Rightarrow> (c # l) # ls))"

definition keyValue :: "string \<Rightarrow> (string \<times> string) option" where
  "keyValue l =
     (if l = [] \<or> hd l = CHR ''#'' \<or> CHR ''='' \<notin> set l then None
      else Some (takeWhile (\<lambda>c. c \<noteq> CHR ''='') l, drop 1 (dropWhile (\<lambda>c. c \<noteq> CHR ''='') l)))"

definition plainParse :: "string \<Rightarrow> error + EnvMap" where
  "plainParse content = Inr (assignAll [] (List.map_filter keyValue (splitAt (CHR 0x0A) content)))"

definition posixHost :: "(string \<times> string option) list \<Rightarrow> expander \<Rightarrow> externals" where
  "posixHost files expand =
     \<lparr>pathResolve = (\<lambda>p. p),
      pathResolve2 = posixResolve2,
      pathJoin = posixJoin,
      existsSync = (\<lambda>p. p \<in> fst ` set files),
      readFileSync = (\<lambda>p. case map_of files p of Some (Some content) \<Rightarrow> Inr content | _ \<Rightarrow> Inl ReadError),
      dotenvParse = plainParse,
      dotenvExpand = expand,
      platform = ''linux''\<rparr>"

text \<open>
  What the \<open>try\<close> block of \<open>parseEnvFiles\<close> gets from one file: its parsed map, or
  \<open>None\<close> when reading or parsing throws.
\<close>

definition readAndParse :: "externals \<Rightarrow> string \<Rightarrow> EnvMap option" where
  "readAndParse x p =
     (case readFileSync x p of
        Inl err \<Rightarrow> None
      | Inr content \<Rightarrow> (case dotenvParse x content of Inl err \<Rightarrow> None | Inr parsed \<Rightarrow> Some parsed))"

text \<open>
  The scenario of the specification: \<open>/.env\<close> holds \<open>A=1\<close>, \<open>/proj/.env\<close> holds
  \<open>A=2\<close> and \<open>B=3\<close>.
\<close>

definition scenarioFiles :: "(string \<times> string option) list" where
  "scenarioFiles = [(''/.env'', Some ''A=1''), (''/proj/.env'', Some ''A=2\<newline>B=3'')]"

text \<open>The same files with \<open>/.env\<close> unreadable.\<close>

definition unreadableFiles :: "(string \<times> string option) list" where
  "unreadableFiles = [(''/.env'', None), (''/proj/.env'', Some ''A=2\<newline>B=3'')]"

text \<open>
  Configurations and a world for the runs: no setting set; only
  \<open>prependCwdComponentsToPath\<close> set, to false; and a world in which both the
  collection (as a prepend mutator) and \<open>process.env\<close> hold \<open>/old/bin\<close> for
  \<open>PATH\<close>.
\<close>

definition unsetConfig :: config where
  "unsetConfig = \<lparr>presets = None, pathResolves = None, envFileName = None,
                   prependCwdComponentsToPath = None, mergeStrategies = None\<rparr>"

definition noCwdConfig :: config where
  "noCwdConfig = unsetConfig\<lparr>prependCwdComponentsToPath := Some False\<rparr>"

definition oldBinWorld :: world where
  "oldBinWorld = emptyWorld\<lparr>collection := [''PATH'' \<mapsto> Mutator MutatorPrepend ''/old/bin''],
                            processEnv := [''PATH'' \<mapsto> ''/old/bin'']\<rparr>"

text \<open>A configuration whose \<open>pathResolves\<close> names one variable.\<close>

definition toolsConfig :: config where
  "toolsConfig = unsetConfig\<lparr>pathResolves := Some [(''TOOLS'', ''/opt/tools'')]\<rparr>"

section \<open>Vocabulary of the statements\<close>

text \<open>
  The names in the allow-list of a folder, and the keys that the env files on a list of
  paths bind (the files that cannot be read or parsed bind none).
\<close>

definition allowedNames :: "string list option \<Rightarrow> string set" where
  "allowedNames allowed = (case allowed of None \<Rightarrow> {} | Some ks \<Rightarrow> set ks)"

definition mergedFileKeys :: "externals \<Rightarrow> string list \<Rightarrow> string set" where
  "mergedFileKeys x paths = fst ` set (foldl assignAll [] (List.map_filter (readAndParse x) paths))"

text \<open>
  The invariant of the snapshot that \<open>expandVariables\<close> keeps while it runs from
  \<open>process.env = penv0\<close>: every touched key is remembered with what
  \<open>process.env[key]\<close> read at entry, and \<open>process.env\<close> differs from \<open>penv0\<close>
  only at the variables that the touched keys name.
\<close>

definition snapOk :: "externals \<Rightarrow> ProcessEnv \<Rightarrow> ProcessEnv \<Rightarrow> snapshot \<Rightarrow> bool" where
  "snapOk x penv0 penv snap =
     ((\<forall>k \<in> set (fst snap). snd snap k = Some (envGet x penv0 k))
      \<and> (\<forall>n. n \<notin> envName x ` set (fst snap) \<longrightarrow> penv n = penv0 n))"

text \<open>
  The value that the loop of \<open>updateEnvironmentVariableCollection\<close> reads as
  \<open>currentValue\<close>: \<open>context.environmentVariableCollection.get(key)?.value ?? ""\<close>.
\<close>

definition currentValue :: "world \<Rightarrow> string \<Rightarrow> string" where
  "currentValue w key = (case collectionGetValue (collection w) key of None \<Rightarrow> [] | Some c \<Rightarrow> c)"

section \<open>Further hosts, files, configurations and worlds for concrete runs\<close>

text \<open>
  A Windows host. There \<open>process.env\<close> ignores the case of a name, so the stand-in
  for dotenv-expand sets the variable that the key names, and only when it is unset.
\<close>

definition literalExpandWin :: expander where
  "literalExpandWin parsed env =
     (case stringEntries parsed of
        None \<Rightarrow> (Inl TypeError, env)
      | Some m \<Rightarrow>
          (Inr (Some m),
           foldl (\<lambda>e (k, v). if e (map upperChar k) = None then e(map upperChar k \<mapsto> v) else e) env m))"

definition win32Host :: externals where
  "win32Host = (posixHost [] literalExpandWin)\<lparr>platform := ''win32''\<rparr>"

text \<open>A configuration whose \<open>presets\<close> name a member of \<open>Object.prototype\<close>.\<close>

definition valueOfConfig :: config where
  "valueOfConfig = unsetConfig\<lparr>presets := Some [(''valueOf'', ''1'')]\<rparr>"

text \<open>
  A folder \<open>/proj\<close> whose file \<open>.env\<close> sets one variable to \<open>/new/bin\<close>:
  \<open>LIBS\<close>, or \<open>PATH\<close>. \<open>mergeConfig s\<close> gives \<open>LIBS\<close> the merge strategy \<open>s\<close>
  and sets \<open>prependCwdComponentsToPath\<close> to false.
\<close>

definition libsFiles :: "(string \<times> string option) list" where
  "libsFiles = [(''/proj/.env'', Some ''LIBS=/new/bin'')]"

definition pathFiles :: "(string \<times> string option) list" where
  "pathFiles = [(''/proj/.env'', Some ''PATH=/new/bin'')]"

definition mergeConfig :: "MergeStrategy \<Rightarrow> config" where
  "mergeConfig s = noCwdConfig\<lparr>mergeStrategies := Some [''LIBS'' \<mapsto> s]\<rparr>"

text \<open>
  In \<open>libsWorld t s\<close> the collection holds for \<open>LIBS\<close> a mutator of type \<open>t\<close>
  with the value \<open>s\<close>, and \<open>process.env\<close> holds \<open>s\<close> for \<open>LIBS\<close>: the world
  that a run leaves which yields \<open>s\<close> for \<open>LIBS\<close>. \<open>reloadedWorld t s\<close> is that
  world after the window of the editor has been loaded again: the collection is
  persistent and still holds the mutator, \<open>process.env\<close> is new and has no \<open>LIBS\<close>.
\<close>

definition libsWorld :: "MutatorType \<Rightarrow> string \<Rightarrow> world" where
  "libsWorld t s = emptyWorld\<lparr>collection := [''LIBS'' \<mapsto> Mutator t s], processEnv := [''LIBS'' \<mapsto> s]\<rparr>"

definition reloadedWorld :: "MutatorType \<Rightarrow> string \<Rightarrow> world" where
  "reloadedWorld t s = emptyWorld\<lparr>collection := [''LIBS'' \<mapsto> Mutator t s]\<rparr>"

declare getParentDirectories_loop.simps [simp del]
declare findEnvFilesUpwards_loop.simps [simp del]

section \<open>Lemmas\<close>

subsection \<open>Lemmas on the maps and the allow-list\<close>

lemma map_of_assignAll:
  "map_of (assignAll target src) k =
     (case map_of (rev src) k of None \<Rightarrow> map_of target k | Some v \<Rightarrow> Some v)"
proof (induction src arbitrary: target)
  case Nil
  show ?case by (simp add: assignAll_def)
next
  case (Cons p ps)
  obtain a b where p: "p = (a, b)" by (cases p)
  have step: "assignAll target (p # ps) = assignAll (AList.update a b target) ps"
    by (simp add: assignAll_def p)
  show ?case
    unfolding step Cons.IH
    by (simp add: p update_conv' map_add_def split: option.splits)
qed

lemma keys_assignAll: "fst ` set (assignAll target src) = fst ` set target \<union> fst ` set src"
proof (induction src arbitrary: target)
  case Nil
  show ?case by (simp add: assignAll_def)
next
  case (Cons p ps)
  obtain a b where p: "p = (a, b)" by (cases p)
  have step: "assignAll target (p # ps) = assignAll (AList.update a b target) ps"
    by (simp add: assignAll_def p)
  show ?case unfolding step Cons.IH by (auto simp: p dom_update)
qed

lemma keys_spread: "fst ` set (spread m) = fst ` set m"
  by (simp add: spread_def keys_assignAll)

lemma keys_spread2: "fst ` set (spread2 a b) = fst ` set a \<union> fst ` set b"
  by (simp add: spread2_def keys_assignAll)

lemma keys_jsObject: "fst ` set (jsObject env) = fst ` set env"
  by (force simp: jsObject_def)

lemma jsObject_empty: "(jsObject env = []) = (env = [])"
  by (simp add: jsObject_def)

lemma filter_loop_keys:
  "fst ` set (foldl (\<lambda>out k. case jsGet env k of None \<Rightarrow> out | Some v \<Rightarrow> jsSet k v out) out0 ks)
     \<subseteq> fst ` set out0 \<union> (set ks \<inter> (fst ` set env \<union> set objectPrototypeNames))"
proof (induction ks arbitrary: out0)
  case Nil
  show ?case by simp
next
  case (Cons a ks)
  define out1 where "out1 = (case jsGet env a of None \<Rightarrow> out0 | Some v \<Rightarrow> jsSet a v out0)"
  define R where "R = fst ` set (foldl (\<lambda>out k. case jsGet env k of None \<Rightarrow> out | Some v \<Rightarrow> jsSet k v out) out1 ks)"
  have ih: "R \<subseteq> fst ` set out1 \<union> (set ks \<inter> (fst ` set env \<union> set objectPrototypeNames))"
    unfolding R_def by (rule Cons.IH)
  have g: "jsGet env a \<noteq> None \<Longrightarrow> a \<in> fst ` set env \<union> set objectPrototypeNames"
    by (auto simp: jsGet_def split: option.splits if_splits dest: map_of_SomeD intro: rev_image_eqI)
  have o: "fst ` set out1 \<subseteq> fst ` set out0 \<union> ({a} \<inter> (fst ` set env \<union> set objectPrototypeNames))"
  proof (cases "jsGet env a")
    case None
    then show ?thesis by (simp add: out1_def)
  next
    case (Some v)
    have "fst ` set (jsSet a v out0) \<subseteq> insert a (fst ` set out0)"
      by (auto simp: jsSet_def dom_update)
    then show ?thesis using g Some by (auto simp: out1_def)
  qed
  have "R \<subseteq> fst ` set out0 \<union> (insert a (set ks) \<inter> (fst ` set env \<union> set objectPrototypeNames))"
    using ih o by blast
  then show ?case by (simp add: R_def out1_def)
qed

lemma keys_filterEnvByAllowed:
  "fst ` set (filterEnvByAllowed env allowed)
     \<subseteq> fst ` set env \<union> (allowedNames allowed \<inter> set objectPrototypeNames)"
proof (cases allowed)
  case None
  then show ?thesis by (simp add: filterEnvByAllowed_def keys_jsObject)
next
  case (Some ks)
  show ?thesis
  proof (cases "ks = []")
    case True
    then show ?thesis using Some by (simp add: filterEnvByAllowed_def keys_jsObject)
  next
    case False
    then show ?thesis
      using Some filter_loop_keys[of env "[]" ks]
      by (auto simp: filterEnvByAllowed_def allowedNames_def)
  qed
qed

lemma filterEnvByAllowed_P6:
  "filterEnvByAllowed [(''A'', ''1''), (''B'', ''2'')] (Some [''A'']) = [(''A'', Str ''1'')]"
  by (simp add: filterEnvByAllowed_def jsGet_def jsSet_def objectPrototypeNames_def)

subsection \<open>Lemmas on the snapshot of expandVariables\<close>

lemma snapOk_remember:
  assumes "snapOk x penv0 penv snap" and "inj_on (envName x) (insert key (set (fst snap)))"
  shows "snapOk x penv0 penv (rememberOriginal x penv key snap)"
proof (cases "key \<in> set (fst snap)")
  case True
  then show ?thesis using assms(1) by (cases snap) (simp add: rememberOriginal_def)
next
  case False
  obtain ts orig where s: "snap = (ts, orig)" by (cases snap)
  have "envName x key \<notin> envName x ` set ts"
    using False assms(2) by (auto simp: s inj_on_def)
  then have "penv (envName x key) = penv0 (envName x key)"
    using assms(1) by (simp add: snapOk_def s)
  then have g: "envGet x penv key = envGet x penv0 key" by (simp add: envGet_def)
  show ?thesis
    using assms(1) False g by (auto simp: snapOk_def s rememberOriginal_def)
qed

lemma touched_remember: "set (fst (rememberOriginal x penv key snap)) = insert key (set (fst snap))"
  by (cases snap) (auto simp: rememberOriginal_def)

lemma snapOk_write:
  "snapOk x penv0 penv snap \<Longrightarrow> key \<in> set (fst snap) \<Longrightarrow> snapOk x penv0 (envSet x key v penv) snap"
  by (auto simp: snapOk_def envSet_def)

lemma exposeBase_snapOk:
  assumes "snapOk x penv0 penv snap"
    and "inj_on (envName x) (fst ` set baseEnv \<union> set (fst snap))"
    and "exposeBase x baseEnv (penv, snap) = (penv', snap')"
  shows "snapOk x penv0 penv' snap' \<and> set (fst snap') = fst ` set baseEnv \<union> set (fst snap)"
  using assms
proof (induction baseEnv arbitrary: penv snap)
  case Nil
  then show ?case by simp
next
  case (Cons p rest)
  obtain key v where p: "p = (key, v)" by (cases p)
  have i1: "inj_on (envName x) (insert key (set (fst snap)))"
    using Cons.prems(2) by (rule inj_on_subset) (auto simp: p)
  have ok: "snapOk x penv0 (envSet x key v penv) (rememberOriginal x penv key snap)"
    using Cons.prems(1) i1 by (intro snapOk_write snapOk_remember) (simp_all add: touched_remember)
  have i2: "inj_on (envName x) (fst ` set rest \<union> set (fst (rememberOriginal x penv key snap)))"
    using Cons.prems(2) by (rule inj_on_subset) (auto simp: p touched_remember)
  have e: "exposeBase x rest (envSet x key v penv, rememberOriginal x penv key snap) = (penv', snap')"
    using Cons.prems(3) by (simp add: p)
  show ?case
    using Cons.IH[OF ok i2 e] by (auto simp: p touched_remember)
qed

lemma rememberParsed_snapOk:
  assumes "snapOk x penv0 penv snap"
    and "inj_on (envName x) (fst ` set parsed \<union> set (fst snap))"
  shows "snapOk x penv0 penv (rememberParsed x penv parsed snap)
       \<and> set (fst (rememberParsed x penv parsed snap)) = fst ` set parsed \<union> set (fst snap)"
  using assms unfolding rememberParsed_def
proof (induction parsed arbitrary: snap)
  case Nil
  then show ?case by simp
next
  case (Cons p ps)
  have i1: "inj_on (envName x) (insert (fst p) (set (fst snap)))"
    using Cons.prems(2) by (rule inj_on_subset) auto
  have ok: "snapOk x penv0 penv (rememberOriginal x penv (fst p) snap)"
    using Cons.prems(1) i1 by (rule snapOk_remember)
  have i2: "inj_on (envName x) (fst ` set ps \<union> set (fst (rememberOriginal x penv (fst p) snap)))"
    using Cons.prems(2) by (rule inj_on_subset) (auto simp: touched_remember)
  show ?case
    using Cons.IH[OF ok i2] by (auto simp: touched_remember)
qed

lemma restore_loop_outside:
  "n \<notin> envName x ` set ks \<Longrightarrow>
   foldl (\<lambda>e key. case orig key of
                     Some (Some previous) \<Rightarrow> envSet x key (jsString previous) e
                   | _ \<Rightarrow> envDelete x key e) penv ks n = penv n"
  by (induction ks arbitrary: penv) (auto simp: envSet_def envDelete_def split: option.splits)

lemma restore_loop_inside:
  "k \<in> set ks \<Longrightarrow> inj_on (envName x) (set ks) \<Longrightarrow>
   foldl (\<lambda>e key. case orig key of
                     Some (Some previous) \<Rightarrow> envSet x key (jsString previous) e
                   | _ \<Rightarrow> envDelete x key e) penv ks (envName x k)
     = (case orig k of Some (Some previous) \<Rightarrow> Some (jsString previous) | _ \<Rightarrow> None)"
proof (induction ks arbitrary: penv)
  case Nil
  then show ?case by simp
next
  case (Cons a ks)
  have inj: "inj_on (envName x) (set ks)"
    using Cons.prems(2) by (rule inj_on_subset) auto
  show ?case
  proof (cases "k \<in> set ks")
    case True
    then show ?thesis using Cons.IH[OF True inj] by simp
  next
    case False
    then have ka: "k = a" using Cons.prems(1) by simp
    have "envName x k \<notin> envName x ` set ks"
      using False Cons.prems(2) by (auto simp: ka inj_on_def)
    then show ?thesis
      by (simp add: restore_loop_outside ka envSet_def envDelete_def split: option.splits)
  qed
qed

lemma restoreOriginals_snapOk:
  assumes ok: "snapOk x penv0 penv1 snap"
    and inj: "inj_on (envName x) (set (fst snap))"
    and set_or_plain: "\<And>k. k \<in> set (fst snap) \<Longrightarrow> k \<in> set objectPrototypeNames \<Longrightarrow> penv0 (envName x k) \<noteq> None"
    and frame: "\<And>n. n \<notin> envName x ` set (fst snap) \<Longrightarrow> penv2 n = penv1 n"
  shows "restoreOriginals x snap penv2 = penv0"
proof
  fix n
  obtain ts orig where s: "snap = (ts, orig)" by (cases snap)
  show "restoreOriginals x snap penv2 n = penv0 n"
  proof (cases "n \<in> envName x ` set ts")
    case False
    then show ?thesis
      using ok frame[of n] by (simp add: s restoreOriginals_def restore_loop_outside snapOk_def)
  next
    case True
    then obtain k where k: "k \<in> set ts" and n: "n = envName x k" by auto
    have o: "orig k = Some (envGet x penv0 k)" using ok k by (simp add: snapOk_def s)
    have "envGet x penv0 k = map_option Str (penv0 n)"
      using set_or_plain[of k] k by (auto simp: envGet_def n s split: option.splits)
    then show ?thesis
      using restore_loop_inside[OF k inj[unfolded s, simplified], of orig penv2]
      by (cases "penv0 n") (simp_all add: s restoreOriginals_def n o)
  qed
qed

lemma expandVariables_return_world:
  assumes frame: "writesOnlyParsedKeys x"
    and names: "inj_on (envName x) (fst ` set baseEnv \<union> fst ` set m)"
    and members: "\<forall>k \<in> fst ` set baseEnv \<union> fst ` set m.
                    k \<in> set objectPrototypeNames \<longrightarrow> processEnv w (envName x k) \<noteq> None"
    and ret: "expandVariables x m baseEnv w = (Inr out, w')"
  shows "w' = w"
proof (cases "m = []")
  case True
  then show ?thesis using ret by (simp add: expandVariables_def)
next
  case False
  obtain penv1 snap1 where e1: "exposeBase x baseEnv (processEnv w, ([], Map.empty)) = (penv1, snap1)"
    by (cases "exposeBase x baseEnv (processEnv w, ([], Map.empty))")
  define snap2 where "snap2 = rememberParsed x penv1 (spread m) snap1"
  obtain expansion penv2 where e2: "dotenvExpand x (spread m) penv1 = (expansion, penv2)"
    by (cases "dotenvExpand x (spread m) penv1")
  have ok0: "snapOk x (processEnv w) (processEnv w) ([], Map.empty)" by (simp add: snapOk_def)
  have i0: "inj_on (envName x) (fst ` set baseEnv \<union> set (fst (([], Map.empty) :: snapshot)))"
    using names by (rule inj_on_subset) auto
  have s1: "snapOk x (processEnv w) penv1 snap1 \<and> set (fst snap1) = fst ` set baseEnv"
    using exposeBase_snapOk[OF ok0 i0 e1] by simp
  have i1: "inj_on (envName x) (fst ` set (spread m) \<union> set (fst snap1))"
    using names by (rule inj_on_subset) (auto simp: s1 keys_spread)
  have s2: "snapOk x (processEnv w) penv1 snap2 \<and> set (fst snap2) = fst ` set m \<union> fst ` set baseEnv"
    unfolding snap2_def using rememberParsed_snapOk[OF s1[THEN conjunct1] i1] s1
    by (simp add: keys_spread)
  have inj2: "inj_on (envName x) (set (fst snap2))"
    using names by (rule inj_on_subset) (auto simp: s2)
  have fr: "\<And>n. n \<notin> envName x ` set (fst snap2) \<Longrightarrow> penv2 n = penv1 n"
  proof -
    fix n assume "n \<notin> envName x ` set (fst snap2)"
    then have "n \<notin> envName x ` fst ` set (spread m)" by (auto simp: s2 keys_spread)
    then have "snd (dotenvExpand x (spread m) penv1) n = penv1 n"
      using frame by (simp add: writesOnlyParsedKeys_def)
    then show "penv2 n = penv1 n" by (simp add: e2)
  qed
  have mem: "\<And>k. k \<in> set (fst snap2) \<Longrightarrow> k \<in> set objectPrototypeNames \<Longrightarrow>
                 processEnv w (envName x k) \<noteq> None"
    using members by (auto simp: s2)
  have rest: "restoreOriginals x snap2 penv2 = processEnv w"
    by (rule restoreOriginals_snapOk[OF s2[THEN conjunct1] inj2 mem fr])
  have "w' = w\<lparr>processEnv := restoreOriginals x snap2 penv2\<rparr>"
    using ret False e1 e2
    by (cases expansion) (auto simp: expandVariables_def Let_def snap2_def)
  then show ?thesis by (simp add: rest)
qed

subsection \<open>Lemmas on the stand-ins for dotenv-expand\<close>

lemma envName_posixHost: "envName (posixHost files expand) key = key"
  by (simp add: envName_def posixHost_def)

lemma stringEntries_keys: "stringEntries parsed = Some m \<Longrightarrow> fst ` set m = fst ` set parsed"
proof (induction parsed arbitrary: m rule: stringEntries.induct)
  case 1
  then show ?case by simp
next
  case (2 k v rest)
  then obtain a where a: "stringEntries rest = Some a" and m: "m = (k, v) # a"
    by (cases "stringEntries rest") auto
  have "fst ` set a = fst ` set rest" using a by (rule "2.IH")
  then show ?case by (simp add: m)
next
  case (3 k name rest)
  then show ?case by simp
qed

lemma stringEntries_jsObject: "stringEntries (jsObject env) = Some env"
  by (induction env) (auto simp: jsObject_def)

lemma literalExpand_frame:
  "n \<notin> fst ` set m \<Longrightarrow>
     foldl (\<lambda>e (k, v). if e k = None then e(k \<mapsto> v) else e) env m n = env n"
  by (induction m arbitrary: env) (auto split: prod.splits)

lemma envFirstExpand_frame:
  "n \<notin> fst ` set m \<Longrightarrow> foldl (\<lambda>e (k, v). e(k \<mapsto> f k v)) env m n = env n"
  by (induction m arbitrary: env) (auto split: prod.splits)

lemma writesOnlyParsedKeys_literalExpand: "writesOnlyParsedKeys (posixHost files literalExpand)"
proof -
  have d: "dotenvExpand (posixHost files literalExpand) = literalExpand" by (simp add: posixHost_def)
  show ?thesis
    unfolding writesOnlyParsedKeys_def d
    by (auto simp: envName_posixHost literalExpand_def literalExpand_frame
        split: option.splits dest: stringEntries_keys)
qed

lemma writesOnlyParsedKeys_envFirstExpand: "writesOnlyParsedKeys (posixHost files envFirstExpand)"
proof -
  have d: "dotenvExpand (posixHost files envFirstExpand) = envFirstExpand" by (simp add: posixHost_def)
  show ?thesis
    unfolding writesOnlyParsedKeys_def d
    by (auto simp: envName_posixHost envFirstExpand_def envFirstExpand_frame
        split: option.splits dest: stringEntries_keys)
qed

lemma update_jsObject: "AList.update k (Str v) (jsObject t) = jsObject (AList.update k v t)"
  by (induction t) (auto simp: jsObject_def)

lemma assignAll_jsObject: "assignAll (jsObject t) (jsObject s) = jsObject (assignAll t s)"
proof (induction s arbitrary: t)
  case Nil
  show ?case by (simp add: assignAll_def jsObject_def)
next
  case (Cons p ps)
  obtain a b where p: "p = (a, b)" by (cases p)
  have l: "assignAll (jsObject t) (jsObject (p # ps)) = assignAll (jsObject (AList.update a b t)) (jsObject ps)"
    using update_jsObject[of a b t] by (simp add: assignAll_def p jsObject_def)
  have r: "assignAll t (p # ps) = assignAll (AList.update a b t) ps"
    by (simp add: assignAll_def p)
  show ?case unfolding l r by (rule Cons.IH)
qed

lemma spread_jsObject: "spread (jsObject env) = jsObject (spread env)"
  using assignAll_jsObject[of "[]" env] by (simp add: spread_def jsObject_def)

lemma expandVariables_result:
  "m \<noteq> [] \<Longrightarrow>
   fst (expandVariables x m [] w) =
     (case fst (dotenvExpand x (spread m) (processEnv w)) of
        Inl e \<Rightarrow> Inl e
      | Inr res \<Rightarrow> Inr (case res of None \<Rightarrow> [] | Some expanded \<Rightarrow> expanded))"
  by (simp add: expandVariables_def Let_def split: prod.splits sum.splits)

lemma expandVariables_literalExpand:
  assumes plain: "fst ` set env \<inter> set objectPrototypeNames = {}"
  shows "expandVariables (posixHost files literalExpand) (jsObject env) [] w = (Inr (spread env), w)"
proof -
  let ?x = "posixHost files literalExpand"
  obtain r w' where e: "expandVariables ?x (jsObject env) [] w = (r, w')"
    by (cases "expandVariables ?x (jsObject env) [] w")
  have d: "dotenvExpand ?x = literalExpand" by (simp add: posixHost_def)
  have r: "r = Inr (spread env)"
  proof (cases "env = []")
    case True
    then show ?thesis using e by (simp add: expandVariables_def jsObject_def spread_def assignAll_def)
  next
    case False
    then have "jsObject env \<noteq> []" by (simp add: jsObject_empty)
    from expandVariables_result[OF this, of ?x w] show ?thesis
      using e by (simp add: d spread_jsObject literalExpand_def stringEntries_jsObject)
  qed
  have n: "inj_on (envName ?x) (fst ` set ([] :: EnvMap) \<union> fst ` set (jsObject env))"
    by (simp add: inj_on_def envName_posixHost)
  have m: "\<forall>k \<in> fst ` set ([] :: EnvMap) \<union> fst ` set (jsObject env).
             k \<in> set objectPrototypeNames \<longrightarrow> processEnv w (envName ?x k) \<noteq> None"
    using plain by (auto simp: keys_jsObject)
  have "w' = w"
    using writesOnlyParsedKeys_literalExpand n m e[unfolded r] by (rule expandVariables_return_world)
  then show ?thesis using e r by simp
qed

lemma expandVariables_envFirstExpand:
  assumes plain: "fst ` set env \<inter> set objectPrototypeNames = {}"
  shows "expandVariables (posixHost files envFirstExpand) (jsObject env) [] w =
           (Inr (map (\<lambda>(k, v). (k, envFirstValue (processEnv w) k v)) (spread env)), w)"
proof -
  let ?x = "posixHost files envFirstExpand"
  obtain r w' where e: "expandVariables ?x (jsObject env) [] w = (r, w')"
    by (cases "expandVariables ?x (jsObject env) [] w")
  have d: "dotenvExpand ?x = envFirstExpand" by (simp add: posixHost_def)
  have r: "r = Inr (map (\<lambda>(k, v). (k, envFirstValue (processEnv w) k v)) (spread env))"
  proof (cases "env = []")
    case True
    then show ?thesis using e by (simp add: expandVariables_def jsObject_def spread_def assignAll_def)
  next
    case False
    then have "jsObject env \<noteq> []" by (simp add: jsObject_empty)
    from expandVariables_result[OF this, of ?x w] show ?thesis
      using e by (simp add: d spread_jsObject envFirstExpand_def stringEntries_jsObject)
  qed
  have n: "inj_on (envName ?x) (fst ` set ([] :: EnvMap) \<union> fst ` set (jsObject env))"
    by (simp add: inj_on_def envName_posixHost)
  have m: "\<forall>k \<in> fst ` set ([] :: EnvMap) \<union> fst ` set (jsObject env).
             k \<in> set objectPrototypeNames \<longrightarrow> processEnv w (envName ?x k) \<noteq> None"
    using plain by (auto simp: keys_jsObject)
  have "w' = w"
    using writesOnlyParsedKeys_envFirstExpand n m e[unfolded r] by (rule expandVariables_return_world)
  then show ?thesis using e r by simp
qed

lemma envName_PATH: "envName x ''PATH'' = ''PATH''"
  by (simp add: envName_def upperChar_def)

subsection \<open>Lemmas on the directory loops\<close>

lemma getParentDirectories_loop_acc:
  "getParentDirectories_loop current paths = paths @ getParentDirectories_loop current []"
proof (induction current arbitrary: paths rule: measure_induct_rule[where f = pathMeasure])
  case (less current)
  show ?case
  proof (cases "dirname current = current")
    case True
    then show ?thesis
      by (simp add: getParentDirectories_loop.simps[of current])
  next
    case False
    have less': "pathMeasure (dirname current) < pathMeasure current"
      using False by (rule dirname_decreases)
    have "getParentDirectories_loop current paths = getParentDirectories_loop (dirname current) (paths @ [current])"
      using False by (simp add: getParentDirectories_loop.simps[of current paths])
    also have "\<dots> = (paths @ [current]) @ getParentDirectories_loop (dirname current) []"
      by (rule less.IH[OF less'])
    also have "\<dots> = paths @ getParentDirectories_loop (dirname current) [current]"
      using less.IH[OF less', of "[current]"] by simp
    finally show ?thesis using False by (simp add: getParentDirectories_loop.simps[of current "[]"])
  qed
qed

lemma getParentDirectories_loop_unfold:
  "getParentDirectories_loop current [] =
     (if dirname current = current then [current]
      else current # getParentDirectories_loop (dirname current) [])"
  using getParentDirectories_loop_acc[of "dirname current" "[current]"]
  by (simp add: getParentDirectories_loop.simps[of current "[]"])

lemma findEnvFilesUpwards_loop_chain:
  "findEnvFilesUpwards_loop x fileName current envPaths =
     concat (map (\<lambda>dir. filter (existsSync x)
                   [pathJoin x [dir, fileName], pathJoin x [dir, ''.vscode'', fileName]])
               (rev (getParentDirectories_loop current []))) @ envPaths"
proof (induction current arbitrary: envPaths rule: measure_induct_rule[where f = pathMeasure])
  case (less current)
  define envPaths' where "envPaths' =
     foldl (\<lambda>acc candidate. if existsSync x candidate then candidate # acc else acc) envPaths
              [pathJoin x [current, ''.vscode'', fileName], pathJoin x [current, fileName]]"
  have acc: "envPaths' = filter (existsSync x)
                   [pathJoin x [current, fileName], pathJoin x [current, ''.vscode'', fileName]] @ envPaths"
    by (simp add: envPaths'_def)
  show ?case
  proof (cases "dirname current = current")
    case True
    have "findEnvFilesUpwards_loop x fileName current envPaths = envPaths'"
      using True by (simp add: findEnvFilesUpwards_loop.simps[of _ _ current] envPaths'_def)
    moreover have "getParentDirectories_loop current [] = [current]"
      using True by (simp add: getParentDirectories_loop_unfold[of current])
    ultimately show ?thesis by (simp add: acc)
  next
    case False
    have less': "pathMeasure (dirname current) < pathMeasure current"
      using False by (rule dirname_decreases)
    have "findEnvFilesUpwards_loop x fileName current envPaths =
          findEnvFilesUpwards_loop x fileName (dirname current) envPaths'"
      using False by (simp add: findEnvFilesUpwards_loop.simps[of _ _ current] envPaths'_def)
    moreover have "getParentDirectories_loop current [] = current # getParentDirectories_loop (dirname current) []"
      using False by (simp add: getParentDirectories_loop_unfold[of current])
    ultimately show ?thesis by (simp add: less.IH[OF less'] acc)
  qed
qed

lemma getParentDirectories_loop_ends:
  "getParentDirectories_loop current [] \<noteq> []
   \<and> hd (getParentDirectories_loop current []) = current
   \<and> dirname (last (getParentDirectories_loop current [])) = last (getParentDirectories_loop current [])"
proof (induction current rule: measure_induct_rule[where f = pathMeasure])
  case (less current)
  show ?case
  proof (cases "dirname current = current")
    case True
    then show ?thesis by (simp add: getParentDirectories_loop_unfold[of current])
  next
    case False
    have "pathMeasure (dirname current) < pathMeasure current"
      using False by (rule dirname_decreases)
    from less.IH[OF this] show ?thesis
      using False by (simp add: getParentDirectories_loop_unfold[of current])
  qed
qed

lemma dirname_a_b: "dirname ''/a/b'' = ''/a''"
  by (simp add: dirname_def)

lemma dirname_a: "dirname ''/a'' = ''/''"
  by (simp add: dirname_def)

lemma dirname_proj: "dirname ''/proj'' = ''/''"
  by (simp add: dirname_def)

subsection \<open>Lemmas on parseEnvFiles\<close>

lemma parseEnvFiles_loop_step:
  "parseEnvFiles_loop x (p # ps) (merged, console) =
     parseEnvFiles_loop x ps
       (case readAndParse x p of
          None \<Rightarrow> (merged, console @ [failedToParse p])
        | Some parsed \<Rightarrow> (assignAll merged parsed, console))"
  by (simp add: readAndParse_def split: sum.splits)

lemma parseEnvFiles_loop_merge:
  "parseEnvFiles_loop x paths (merged, console) =
     (foldl assignAll merged (List.map_filter (readAndParse x) paths),
      console @ map failedToParse (filter (\<lambda>p. readAndParse x p = None) paths))"
proof (induction paths arbitrary: merged console)
  case Nil
  show ?case by (simp add: List.map_filter_simps)
next
  case (Cons p ps)
  show ?case
    unfolding parseEnvFiles_loop_step
    by (cases "readAndParse x p") (simp_all add: Cons.IH List.map_filter_simps)
qed

lemma assignAll_other_layers:
  "\<forall>M \<in> set layers. k \<notin> fst ` set M \<Longrightarrow> map_of (foldl assignAll m layers) k = map_of m k"
proof (induction layers arbitrary: m)
  case Nil
  show ?case by simp
next
  case (Cons M layers)
  have "k \<notin> fst ` set (rev M)" using Cons.prems by simp
  then have "map_of (rev M) k = None" by (simp add: map_of_eq_None_iff)
  then have "map_of (assignAll m M) k = map_of m k" by (simp add: map_of_assignAll)
  then show ?case using Cons by simp
qed

lemma assignAll_distinct_layer:
  "distinct (map fst L) \<Longrightarrow> map_of L k = Some v \<Longrightarrow> map_of (assignAll m L) k = Some v"
proof -
  assume d: "distinct (map fst L)" and l: "map_of L k = Some v"
  have "(k, v) \<in> set (rev L)" using l by (simp add: map_of_SomeD)
  moreover have "distinct (map fst (rev L))" using d by (simp add: rev_map[symmetric])
  ultimately have "map_of (rev L) k = Some v" by (rule map_of_is_SomeI[rotated])
  then show ?thesis by (simp add: map_of_assignAll)
qed

lemma keyValue_A1: "keyValue ''A=1'' = Some (''A'', ''1'')"
  by (simp add: keyValue_def)

lemma keyValue_A2: "keyValue ''A=2'' = Some (''A'', ''2'')"
  by (simp add: keyValue_def)

lemma keyValue_B3: "keyValue ''B=3'' = Some (''B'', ''3'')"
  by (simp add: keyValue_def)

lemma scenario_root: "readAndParse (posixHost scenarioFiles literalExpand) ''/.env'' = Some [(''A'', ''1'')]"
  by (simp add: readAndParse_def posixHost_def scenarioFiles_def plainParse_def
      List.map_filter_simps keyValue_A1 assignAll_def)

lemma scenario_proj:
  "readAndParse (posixHost scenarioFiles literalExpand) ''/proj/.env'' = Some [(''A'', ''2''), (''B'', ''3'')]"
  by (simp add: readAndParse_def posixHost_def scenarioFiles_def plainParse_def
      List.map_filter_simps keyValue_A2 keyValue_B3 assignAll_def)

lemma unreadable_root: "readAndParse (posixHost unreadableFiles literalExpand) ''/.env'' = None"
  by (simp add: readAndParse_def posixHost_def unreadableFiles_def)

lemma unreadable_proj:
  "readAndParse (posixHost unreadableFiles literalExpand) ''/proj/.env'' = Some [(''A'', ''2''), (''B'', ''3'')]"
  by (simp add: readAndParse_def posixHost_def unreadableFiles_def plainParse_def
      List.map_filter_simps keyValue_A2 keyValue_B3 assignAll_def)

subsection \<open>Lemmas on the block under prependPaths\<close>

lemma prependCwdComponents_world:
  "snd (prependCwdComponents x folder (ensured, w)) =
     w\<lparr>collection := (collection w)(''PATH'' \<mapsto> Mutator MutatorPrepend
           (joinWith (pathSeparator x) (getParentDirectories x folder) @ pathSeparator x)),
       processEnv := (processEnv w)(''PATH'' \<mapsto>
           joinWith (pathSeparator x) (getParentDirectories x folder) @ pathSeparator x)\<rparr>"
  by (simp add: prependCwdComponents_def collectionPrepend_def collectionGetValue_def Let_def
      envSet_def envName_PATH)

lemma prependCwdComponents_ensured:
  "fst (prependCwdComponents x folder (ensured, w)) =
     AList.update ''PATH'' (joinWith (pathSeparator x) (getParentDirectories x folder) @ pathSeparator x) ensured"
  by (simp add: prependCwdComponents_def collectionPrepend_def collectionGetValue_def Let_def
      envSet_def envName_PATH)

subsection \<open>Lemmas on resolveEnvironments and getConfiguredEnvironment\<close>

lemma resolveEnvironments_loop_step:
  assumes "resolveEnvironments_loop x folder ((key, v) # rest) (resolved, penv) = (Inr resolved', penv')"
  obtains r where
    "resolveEnvironments_loop x folder rest (AList.update key r resolved, envSet x key r penv)
       = (Inr resolved', penv')"
  using assms that by (auto simp: Let_def split: option.splits jsValue.splits)

lemma resolveEnvironments_loop_world:
  assumes "resolveEnvironments_loop x folder pr (resolved, penv) = (Inr resolved', penv')"
  shows "(\<forall>n. n \<notin> envName x ` fst ` set pr \<longrightarrow> penv' n = penv n)
       \<and> (\<forall>k. k \<notin> fst ` set pr \<longrightarrow> map_of resolved' k = map_of resolved k)
       \<and> (inj_on (envName x) (fst ` set pr) \<longrightarrow>
            (\<forall>k \<in> fst ` set pr. penv' (envName x k) = map_of resolved' k))
       \<and> fst ` set resolved' = fst ` set resolved \<union> fst ` set pr"
  using assms
proof (induction pr arbitrary: resolved penv)
  case Nil
  then show ?case by simp
next
  case (Cons entry rest)
  obtain key v where e: "entry = (key, v)" by (cases entry)
  obtain r where step:
    "resolveEnvironments_loop x folder rest (AList.update key r resolved, envSet x key r penv)
       = (Inr resolved', penv')"
    by (rule resolveEnvironments_loop_step[OF Cons.prems[unfolded e]])
  note ih = Cons.IH[OF step]
  have a: "\<forall>n. n \<notin> envName x ` fst ` set (entry # rest) \<longrightarrow> penv' n = penv n"
    using ih by (auto simp: e envSet_def)
  have b: "\<forall>k. k \<notin> fst ` set (entry # rest) \<longrightarrow> map_of resolved' k = map_of resolved k"
    using ih by (auto simp: e update_conv')
  have c: "inj_on (envName x) (fst ` set (entry # rest)) \<longrightarrow>
            (\<forall>k \<in> fst ` set (entry # rest). penv' (envName x k) = map_of resolved' k)"
  proof (intro impI ballI)
    fix k
    assume inj: "inj_on (envName x) (fst ` set (entry # rest))" and k: "k \<in> fst ` set (entry # rest)"
    have injr: "inj_on (envName x) (fst ` set rest)"
      using inj by (rule inj_on_subset) auto
    show "penv' (envName x k) = map_of resolved' k"
    proof (cases "k \<in> fst ` set rest")
      case True
      then show ?thesis using ih injr by blast
    next
      case False
      then have kk: "k = key" using k by (auto simp: e)
      have "envName x key \<notin> envName x ` fst ` set rest"
        using False inj by (auto simp: e kk inj_on_def)
      then have "penv' (envName x key) = Some r"
        using ih by (simp add: envSet_def)
      moreover have "map_of resolved' key = Some r"
        using ih False by (simp add: kk update_conv')
      ultimately show ?thesis by (simp add: kk)
    qed
  qed
  have d: "fst ` set resolved' = fst ` set resolved \<union> fst ` set (entry # rest)"
    using ih by (auto simp: e dom_update)
  show ?case using a b c d by blast
qed

lemma resolveEnvironments_world:
  assumes "resolveEnvironments x cfg folder variables w = (Inr resolved, w')"
  shows "collection w' = collection w" and "errorLog w' = errorLog w"
    and "\<And>n. n \<notin> envName x ` fst ` set (configGet (pathResolves cfg) []) \<Longrightarrow>
              processEnv w' n = processEnv w n"
    and "\<And>k. inj_on (envName x) (fst ` set (configGet (pathResolves cfg) [])) \<Longrightarrow>
              k \<in> fst ` set (configGet (pathResolves cfg) []) \<Longrightarrow>
              processEnv w' (envName x k) = map_of resolved k"
    and "fst ` set resolved = fst ` set variables \<union> fst ` set (configGet (pathResolves cfg) [])"
proof -
  obtain res pe where l: "resolveEnvironments_loop x folder (configGet (pathResolves cfg) [])
              (spread variables, processEnv w) = (res, pe)"
    by (cases "resolveEnvironments_loop x folder (configGet (pathResolves cfg) [])
              (spread variables, processEnv w)")
  have r: "res = Inr resolved" and w': "w' = w\<lparr>processEnv := pe\<rparr>"
    using assms l by (simp_all add: resolveEnvironments_def)
  note f = resolveEnvironments_loop_world[OF l[unfolded r]]
  show "collection w' = collection w" "errorLog w' = errorLog w" by (simp_all add: w')
  show "\<And>n. n \<notin> envName x ` fst ` set (configGet (pathResolves cfg) []) \<Longrightarrow>
              processEnv w' n = processEnv w n"
    using f by (simp add: w')
  show "\<And>k. inj_on (envName x) (fst ` set (configGet (pathResolves cfg) [])) \<Longrightarrow>
              k \<in> fst ` set (configGet (pathResolves cfg) []) \<Longrightarrow>
              processEnv w' (envName x k) = map_of resolved k"
    using f by (auto simp: w')
  show "fst ` set resolved = fst ` set variables \<union> fst ` set (configGet (pathResolves cfg) [])"
    using f by (simp add: keys_spread)
qed

lemma parseEnvFiles_return_world:
  assumes frame: "writesOnlyParsedKeys x"
    and names: "inj_on (envName x) N" and plain: "N \<inter> set objectPrototypeNames = {}"
    and keys: "fst ` set expansionBase \<subseteq> N" "mergedFileKeys x paths \<subseteq> N"
    and ret: "parseEnvFiles x paths expansionBase w = (Inr m, w')"
  shows "processEnv w' = processEnv w \<and> collection w' = collection w"
proof -
  let ?merged = "foldl assignAll [] (List.map_filter (readAndParse x) paths)"
  let ?w = "w\<lparr>errorLog := errorLog w @ map failedToParse (filter (\<lambda>p. readAndParse x p = None) paths)\<rparr>"
  have e: "expandVariables x (jsObject ?merged) expansionBase ?w = (Inr m, w')"
    using ret by (simp add: parseEnvFiles_def parseEnvFiles_loop_merge)
  have sub: "fst ` set expansionBase \<union> fst ` set (jsObject ?merged) \<subseteq> N"
    using keys by (simp add: keys_jsObject mergedFileKeys_def)
  have n: "inj_on (envName x) (fst ` set expansionBase \<union> fst ` set (jsObject ?merged))"
    using names sub by (rule inj_on_subset)
  have p: "\<forall>k \<in> fst ` set expansionBase \<union> fst ` set (jsObject ?merged).
             k \<in> set objectPrototypeNames \<longrightarrow> processEnv ?w (envName x k) \<noteq> None"
    using sub plain by blast
  have "w' = ?w" using frame n p e by (rule expandVariables_return_world)
  then show ?thesis by simp
qed

lemma readEnvFiles_return_world:
  assumes frame: "writesOnlyParsedKeys x"
    and names: "inj_on (envName x) N" and plain: "N \<inter> set objectPrototypeNames = {}"
    and keys: "fst ` set expansionBase \<subseteq> N" "mergedFileKeys x (findEnvFilesUpwards x folder name) \<subseteq> N"
    and ret: "readEnvFiles x folder name expansionBase w = (Inr r, w')"
  shows "processEnv w' = processEnv w \<and> collection w' = collection w"
proof (cases "findEnvFilesUpwards x folder name = []")
  case True
  then show ?thesis using ret by (simp add: readEnvFiles_def)
next
  case False
  obtain res w1 where p: "parseEnvFiles x (findEnvFilesUpwards x folder name) expansionBase w = (res, w1)"
    by (cases "parseEnvFiles x (findEnvFilesUpwards x folder name) expansionBase w")
  show ?thesis
  proof (cases res)
    case (Inl e)
    then show ?thesis using ret False p by (simp add: readEnvFiles_def Let_def)
  next
    case (Inr m)
    then have "w' = w1" using ret False p by (simp add: readEnvFiles_def Let_def)
    then show ?thesis
      using parseEnvFiles_return_world[OF frame names plain keys p[unfolded Inr]] by simp
  qed
qed

lemma getConfiguredEnvironment_Inr:
  assumes "getConfiguredEnvironment x cfg allowedForFolder folder w = (Inr conf, w')"
  obtains resolvedPresets w1 fromFiles w2 w3 filtered where
    "resolveEnvironments x cfg folder (spread (configGet (presets cfg) [])) w = (Inr resolvedPresets, w1)"
    "readEnvFiles x folder (configGet (envFileName cfg) DEFAULT_ENV_FILE_NAME) (configGet (presets cfg) []) w1
       = (Inr fromFiles, w2)"
    "resolveEnvironments x cfg folder
       (spread2 resolvedPresets (case fromFiles of None \<Rightarrow> [] | Some m \<Rightarrow> m)) w2
       = (Inr (cCombined conf), w3)"
    "expandVariables x (filterEnvByAllowed (cCombined conf) allowedForFolder) [] w3 = (Inr filtered, w')"
  using assms
  by (auto simp: getConfiguredEnvironment_def Let_def split: prod.splits sum.splits)

lemma getConfiguredEnvironment_world:
  assumes frame: "writesOnlyParsedKeys x"
    and names: "inj_on (envName x) N" and plain: "N \<inter> set objectPrototypeNames = {}"
    and kp: "fst ` set (configGet (presets cfg) []) \<subseteq> N"
    and kr: "fst ` set (configGet (pathResolves cfg) []) \<subseteq> N"
    and kf: "mergedFileKeys x (findEnvFilesUpwards x folder (configGet (envFileName cfg) DEFAULT_ENV_FILE_NAME)) \<subseteq> N"
    and kc: "fst ` set (cCombined conf) \<subseteq> N"
    and ka: "allowedNames allowedForFolder \<inter> set objectPrototypeNames = {}"
    and ret: "getConfiguredEnvironment x cfg allowedForFolder folder w = (Inr conf, w')"
  shows "collection w' = collection w"
    and "\<And>n. n \<notin> envName x ` fst ` set (configGet (pathResolves cfg) []) \<Longrightarrow>
              processEnv w' n = processEnv w n"
    and "\<And>k. k \<in> fst ` set (configGet (pathResolves cfg) []) \<Longrightarrow>
              processEnv w' (envName x k) = map_of (cCombined conf) k"
proof -
  from ret obtain resolvedPresets w1 fromFiles w2 w3 filtered where
    r1: "resolveEnvironments x cfg folder (spread (configGet (presets cfg) [])) w = (Inr resolvedPresets, w1)"
    and rd: "readEnvFiles x folder (configGet (envFileName cfg) DEFAULT_ENV_FILE_NAME) (configGet (presets cfg) []) w1
       = (Inr fromFiles, w2)"
    and r2: "resolveEnvironments x cfg folder
       (spread2 resolvedPresets (case fromFiles of None \<Rightarrow> [] | Some m \<Rightarrow> m)) w2
       = (Inr (cCombined conf), w3)"
    and ev: "expandVariables x (filterEnvByAllowed (cCombined conf) allowedForFolder) [] w3 = (Inr filtered, w')"
    by (rule getConfiguredEnvironment_Inr)
  have injr: "inj_on (envName x) (fst ` set (configGet (pathResolves cfg) []))"
    using names kr by (rule inj_on_subset)
  have fk: "fst ` set (filterEnvByAllowed (cCombined conf) allowedForFolder) \<subseteq> N"
    using keys_filterEnvByAllowed[of "cCombined conf" allowedForFolder] kc ka by blast
  have n: "inj_on (envName x)
             (fst ` set ([] :: EnvMap) \<union> fst ` set (filterEnvByAllowed (cCombined conf) allowedForFolder))"
    using names fk by (auto intro: inj_on_subset)
  have p: "\<forall>k \<in> fst ` set ([] :: EnvMap) \<union> fst ` set (filterEnvByAllowed (cCombined conf) allowedForFolder).
             k \<in> set objectPrototypeNames \<longrightarrow> processEnv w3 (envName x k) \<noteq> None"
    using fk plain by auto
  have w43: "w' = w3" using frame n p ev by (rule expandVariables_return_world)
  have w21: "processEnv w2 = processEnv w1 \<and> collection w2 = collection w1"
    using readEnvFiles_return_world[OF frame names plain kp kf rd] .
  show "collection w' = collection w"
    using resolveEnvironments_world(1)[OF r1] resolveEnvironments_world(1)[OF r2] w21
    by (simp add: w43)
  show "\<And>n. n \<notin> envName x ` fst ` set (configGet (pathResolves cfg) []) \<Longrightarrow>
              processEnv w' n = processEnv w n"
    using resolveEnvironments_world(3)[OF r2] resolveEnvironments_world(3)[OF r1] w21
    by (simp add: w43)
  show "\<And>k. k \<in> fst ` set (configGet (pathResolves cfg) []) \<Longrightarrow>
              processEnv w' (envName x k) = map_of (cCombined conf) k"
    using resolveEnvironments_world(4)[OF r2 injr] by (simp add: w43)
qed

subsection \<open>Lemmas on the runs of getConfiguredEnvironment\<close>

lemma scenario_found:
  "findEnvFilesUpwards (posixHost scenarioFiles expand) ''/proj'' ''.env'' = [''/.env'', ''/proj/.env'']"
  by (simp add: findEnvFilesUpwards_def findEnvFilesUpwards_loop_chain posixHost_def scenarioFiles_def
      getParentDirectories_loop_unfold dirname_proj dirname_root posixJoin_def joinTwo_def)

lemma scenario_merged:
  "foldl assignAll [] (List.map_filter (readAndParse (posixHost scenarioFiles literalExpand))
      [''/.env'', ''/proj/.env'']) = [(''A'', ''2''), (''B'', ''3'')]"
  by (simp add: List.map_filter_simps scenario_root scenario_proj assignAll_def)

lemma scenario_parsed:
  "parseEnvFiles (posixHost scenarioFiles literalExpand) [''/.env'', ''/proj/.env''] [] w =
     (Inr [(''A'', ''2''), (''B'', ''3'')], w)"
  by (simp add: parseEnvFiles_def parseEnvFiles_loop_merge scenario_merged List.map_filter_simps
      scenario_root scenario_proj expandVariables_literalExpand objectPrototypeNames_def
      spread_def assignAll_def)

lemma scenario_tools:
  "getConfiguredEnvironment (posixHost scenarioFiles literalExpand) toolsConfig None ''/proj'' emptyWorld
     = (Inr \<lparr>cPresets = [], cEnvFromFiles = [(''A'', ''2''), (''B'', ''3'')],
               cCombined = [(''TOOLS'', ''/opt/tools''), (''A'', ''2''), (''B'', ''3'')],
               cFiltered = [(''TOOLS'', ''/opt/tools''), (''A'', ''2''), (''B'', ''3'')],
               cAllowed = None\<rparr>,
        emptyWorld\<lparr>processEnv := [''TOOLS'' \<mapsto> ''/opt/tools'']\<rparr>)"
proof -
  have r: "pathResolve2 (posixHost scenarioFiles literalExpand) = posixResolve2"
    by (simp add: posixHost_def)
  have j: "jsObject [(''TOOLS'', ''/opt/tools''), (''A'', ''2''), (''B'', ''3'')]
           = [(''TOOLS'', Str ''/opt/tools''), (''A'', Str ''2''), (''B'', Str ''3'')]"
    by (simp add: jsObject_def)
  have ev: "\<And>w. expandVariables (posixHost scenarioFiles literalExpand)
              [(''TOOLS'', Str ''/opt/tools''), (''A'', Str ''2''), (''B'', Str ''3'')] [] w
            = (Inr [(''TOOLS'', ''/opt/tools''), (''A'', ''2''), (''B'', ''3'')], w)"
    using expandVariables_literalExpand[of "[(''TOOLS'', ''/opt/tools''), (''A'', ''2''), (''B'', ''3'')]" scenarioFiles]
    by (simp add: j objectPrototypeNames_def spread_def assignAll_def)
  show ?thesis
    by (simp add: getConfiguredEnvironment_def toolsConfig_def unsetConfig_def configGet_def
        DEFAULT_ENV_FILE_NAME_def resolveEnvironments_def r jsGet_def objectPrototypeNames_def
        posixResolve2_def jsOr_def readEnvFiles_def scenario_found scenario_parsed
        filterEnvByAllowed_def j ev spread_def spread2_def assignAll_def envSet_def envName_posixHost
        emptyWorld_def Let_def)
qed

lemma scenario_valueOf:
  "processEnv (snd (getConfiguredEnvironment (posixHost scenarioFiles literalExpand) valueOfConfig None
                        ''/proj'' emptyWorld)) ''valueOf'' = Some ''function valueOf() { [native code] }''
   \<and> fst (getConfiguredEnvironment (posixHost scenarioFiles literalExpand) valueOfConfig None
                        ''/proj'' emptyWorld)
       = Inr \<lparr>cPresets = [(''valueOf'', ''1'')], cEnvFromFiles = [(''A'', ''2''), (''B'', ''3'')],
               cCombined = [(''valueOf'', ''1''), (''A'', ''2''), (''B'', ''3'')],
               cFiltered = [(''valueOf'', ''1''), (''A'', ''2''), (''B'', ''3'')],
               cAllowed = None\<rparr>"
proof -
  have d: "dotenvExpand (posixHost scenarioFiles literalExpand) = literalExpand"
    by (simp add: posixHost_def)
  show ?thesis
    by (simp add: getConfiguredEnvironment_def valueOfConfig_def unsetConfig_def configGet_def
        DEFAULT_ENV_FILE_NAME_def resolveEnvironments_def readEnvFiles_def scenario_found
        parseEnvFiles_def parseEnvFiles_loop_merge scenario_root scenario_proj
        filterEnvByAllowed_def jsObject_def expandVariables_def d literalExpand_def
        rememberParsed_def rememberOriginal_def restoreOriginals_def
        envSet_def envDelete_def envGet_def envName_posixHost objectPrototypeNames_def
        spread_def spread2_def assignAll_def emptyWorld_def Let_def)
qed

subsection \<open>Lemmas on the runs of updateEnvironmentVariableCollection\<close>

lemma proj_found:
  assumes "fst ` set files = {''/proj/.env''}"
  shows "findEnvFilesUpwards (posixHost files expand) ''/proj'' ''.env'' = [''/proj/.env'']"
  using assms
  by (simp add: findEnvFilesUpwards_def findEnvFilesUpwards_loop_chain posixHost_def
      getParentDirectories_loop_unfold dirname_proj dirname_root posixJoin_def joinTwo_def)

lemma keyValue_LIBS: "keyValue ''LIBS=/new/bin'' = Some (''LIBS'', ''/new/bin'')"
  by (simp add: keyValue_def)

lemma keyValue_PATH: "keyValue ''PATH=/new/bin'' = Some (''PATH'', ''/new/bin'')"
  by (simp add: keyValue_def)

lemma libs_parsed:
  "readAndParse (posixHost libsFiles expand) ''/proj/.env'' = Some [(''LIBS'', ''/new/bin'')]"
  by (simp add: readAndParse_def posixHost_def libsFiles_def plainParse_def
      List.map_filter_simps keyValue_LIBS assignAll_def)

lemma path_parsed:
  "readAndParse (posixHost pathFiles expand) ''/proj/.env'' = Some [(''PATH'', ''/new/bin'')]"
  by (simp add: readAndParse_def posixHost_def pathFiles_def plainParse_def
      List.map_filter_simps keyValue_PATH assignAll_def)

lemma single_literal:
  "k \<notin> set objectPrototypeNames \<Longrightarrow>
   expandVariables (posixHost files literalExpand) [(k, Str v)] [] w = (Inr [(k, v)], w)"
  using expandVariables_literalExpand[of "[(k, v)]" files w]
  by (simp add: jsObject_def spread_def assignAll_def)

lemma single_envFirst:
  "k \<notin> set objectPrototypeNames \<Longrightarrow>
   expandVariables (posixHost files envFirstExpand) [(k, Str v)] [] w
     = (Inr [(k, envFirstValue (processEnv w) k v)], w)"
  using expandVariables_envFirstExpand[of "[(k, v)]" files w]
  by (simp add: jsObject_def spread_def assignAll_def)

lemma configured_single:
  assumes found: "findEnvFilesUpwards x folder ''.env'' = [p]"
    and parsed: "readAndParse x p = Some [(k, v)]"
    and e1: "expandVariables x [(k, Str v)] [] w = (Inr [(k, v1)], w)"
    and e2: "expandVariables x [(k, Str v1)] [] w = (Inr [(k, v2)], w)"
    and cfg: "presets cfg = None" "pathResolves cfg = None" "envFileName cfg = None"
  shows "getConfiguredEnvironment x cfg None folder w =
           (Inr \<lparr>cPresets = [], cEnvFromFiles = [(k, v1)], cCombined = [(k, v1)],
                  cFiltered = [(k, v2)], cAllowed = None\<rparr>, w)"
proof -
  have m: "foldl assignAll [] (List.map_filter (readAndParse x) [p]) = [(k, v)]"
    by (simp add: List.map_filter_simps parsed assignAll_def)
  have pe: "parseEnvFiles x [p] [] w = (Inr [(k, v1)], w)"
    by (simp add: parseEnvFiles_def parseEnvFiles_loop_merge List.map_filter_simps parsed
        assignAll_def jsObject_def e1)
  show ?thesis
    by (simp add: getConfiguredEnvironment_def cfg configGet_def DEFAULT_ENV_FILE_NAME_def
        resolveEnvironments_def readEnvFiles_def found pe filterEnvByAllowed_def jsObject_def e2
        spread_def spread2_def assignAll_def Let_def)
qed

lemma LIBS_plain: "''LIBS'' \<notin> set objectPrototypeNames" "''PATH'' \<notin> set objectPrototypeNames"
  by (simp_all add: objectPrototypeNames_def)

lemma libs_literal:
  "getConfiguredEnvironment (posixHost libsFiles literalExpand) (mergeConfig s) None ''/proj'' w =
     (Inr \<lparr>cPresets = [], cEnvFromFiles = [(''LIBS'', ''/new/bin'')], cCombined = [(''LIBS'', ''/new/bin'')],
            cFiltered = [(''LIBS'', ''/new/bin'')], cAllowed = None\<rparr>, w)"
  by (rule configured_single[OF proj_found libs_parsed single_literal single_literal])
     (simp_all add: libsFiles_def LIBS_plain mergeConfig_def noCwdConfig_def unsetConfig_def)

lemma libs_envFirst:
  "getConfiguredEnvironment (posixHost libsFiles envFirstExpand) (mergeConfig s) None ''/proj'' w =
     (Inr \<lparr>cPresets = [],
            cEnvFromFiles = [(''LIBS'', envFirstValue (processEnv w) ''LIBS'' ''/new/bin'')],
            cCombined = [(''LIBS'', envFirstValue (processEnv w) ''LIBS'' ''/new/bin'')],
            cFiltered = [(''LIBS'', envFirstValue (processEnv w) ''LIBS''
                                      (envFirstValue (processEnv w) ''LIBS'' ''/new/bin''))],
            cAllowed = None\<rparr>, w)"
  by (rule configured_single[OF proj_found libs_parsed single_envFirst single_envFirst])
     (simp_all add: libsFiles_def LIBS_plain mergeConfig_def noCwdConfig_def unsetConfig_def)

lemma path_literal:
  "getConfiguredEnvironment (posixHost pathFiles literalExpand) unsetConfig None ''/proj'' w =
     (Inr \<lparr>cPresets = [], cEnvFromFiles = [(''PATH'', ''/new/bin'')], cCombined = [(''PATH'', ''/new/bin'')],
            cFiltered = [(''PATH'', ''/new/bin'')], cAllowed = None\<rparr>, w)"
  by (rule configured_single[OF proj_found path_parsed single_literal single_literal])
     (simp_all add: pathFiles_def LIBS_plain unsetConfig_def)

lemma apply_prepend:
  "applyFiltered (posixHost files expand) (mergeConfig StrategyPrepend) folder [(''LIBS'', v)] w
   = ([(''LIBS'', v @ jsAnd (currentValue w ''LIBS'') '':'')],
      w\<lparr>collection := (collection w)(''LIBS'' \<mapsto> Mutator MutatorPrepend (v @ jsAnd (currentValue w ''LIBS'') '':'')),
         processEnv := (processEnv w)(''LIBS'' \<mapsto> v @ jsAnd (currentValue w ''LIBS'') '':'')\<rparr>)"
  by (simp add: applyFiltered_def currentValue_def
      mergeConfig_def noCwdConfig_def unsetConfig_def configGet_def mergeVariable_def
      collectionPrepend_def collectionGetValue_def pathSeparator_def posixHost_def
      envSet_def envName_def Let_def)

lemma apply_append:
  "applyFiltered (posixHost files expand) (mergeConfig StrategyAppend) folder [(''LIBS'', v)] w
   = ([(''LIBS'', jsAnd (currentValue w ''LIBS'') '':'' @ v)],
      w\<lparr>collection := (collection w)(''LIBS'' \<mapsto> Mutator MutatorAppend (jsAnd (currentValue w ''LIBS'') '':'' @ v)),
         processEnv := (processEnv w)(''LIBS'' \<mapsto> jsAnd (currentValue w ''LIBS'') '':'' @ v)\<rparr>)"
  by (simp add: applyFiltered_def currentValue_def
      mergeConfig_def noCwdConfig_def unsetConfig_def configGet_def mergeVariable_def
      collectionAppend_def collectionGetValue_def pathSeparator_def posixHost_def
      envSet_def envName_def Let_def)

lemma run_literal_prepend:
  "updateEnvironmentVariableCollection (posixHost libsFiles literalExpand) (mergeConfig StrategyPrepend)
       None (Some ''/proj'') w
   = (Inr [(''LIBS'', ''/new/bin'' @ jsAnd (currentValue w ''LIBS'') '':'')],
      w\<lparr>collection := (collection w)(''LIBS'' \<mapsto> Mutator MutatorPrepend (''/new/bin'' @ jsAnd (currentValue w ''LIBS'') '':'')),
         processEnv := (processEnv w)(''LIBS'' \<mapsto> ''/new/bin'' @ jsAnd (currentValue w ''LIBS'') '':'')\<rparr>)"
  by (simp add: updateEnvironmentVariableCollection_def libs_literal apply_prepend)

lemma run_literal_append:
  "updateEnvironmentVariableCollection (posixHost libsFiles literalExpand) (mergeConfig StrategyAppend)
       None (Some ''/proj'') w
   = (Inr [(''LIBS'', jsAnd (currentValue w ''LIBS'') '':'' @ ''/new/bin'')],
      w\<lparr>collection := (collection w)(''LIBS'' \<mapsto> Mutator MutatorAppend (jsAnd (currentValue w ''LIBS'') '':'' @ ''/new/bin'')),
         processEnv := (processEnv w)(''LIBS'' \<mapsto> jsAnd (currentValue w ''LIBS'') '':'' @ ''/new/bin'')\<rparr>)"
  by (simp add: updateEnvironmentVariableCollection_def libs_literal apply_append)

lemma run_envFirst_prepend:
  "updateEnvironmentVariableCollection (posixHost libsFiles envFirstExpand) (mergeConfig StrategyPrepend)
       None (Some ''/proj'') w
   = (let v = envFirstValue (processEnv w) ''LIBS'' (envFirstValue (processEnv w) ''LIBS'' ''/new/bin'')
      in (Inr [(''LIBS'', v @ jsAnd (currentValue w ''LIBS'') '':'')],
          w\<lparr>collection := (collection w)(''LIBS'' \<mapsto> Mutator MutatorPrepend (v @ jsAnd (currentValue w ''LIBS'') '':'')),
             processEnv := (processEnv w)(''LIBS'' \<mapsto> v @ jsAnd (currentValue w ''LIBS'') '':'')\<rparr>))"
  by (simp add: updateEnvironmentVariableCollection_def libs_envFirst apply_prepend Let_def)

lemma path_envFirst:
  "getConfiguredEnvironment (posixHost pathFiles envFirstExpand) unsetConfig None ''/proj'' w =
     (Inr \<lparr>cPresets = [],
            cEnvFromFiles = [(''PATH'', envFirstValue (processEnv w) ''PATH'' ''/new/bin'')],
            cCombined = [(''PATH'', envFirstValue (processEnv w) ''PATH'' ''/new/bin'')],
            cFiltered = [(''PATH'', envFirstValue (processEnv w) ''PATH''
                                      (envFirstValue (processEnv w) ''PATH'' ''/new/bin''))],
            cAllowed = None\<rparr>, w)"
  by (rule configured_single[OF proj_found path_parsed single_envFirst single_envFirst])
     (simp_all add: pathFiles_def LIBS_plain unsetConfig_def)

lemma apply_path_default:
  "fst (applyFiltered (posixHost pathFiles expand) unsetConfig ''/proj'' [(''PATH'', v)] oldBinWorld)
     = [(''PATH'', ''/proj:/:'')]"
proof -
  have d: "getParentDirectories (posixHost pathFiles expand) ''/proj'' = [''/proj'', ''/'']"
    by (simp add: getParentDirectories_def posixHost_def getParentDirectories_loop_unfold
        dirname_proj dirname_root)
  have sep: "pathSeparator (posixHost pathFiles expand) = '':''"
    by (simp add: pathSeparator_def posixHost_def)
  show ?thesis
    by (simp add: applyFiltered_def unsetConfig_def configGet_def DEFAULT_MERGE_STRATEGIES_def
        mergeVariable_def prependCwdComponents_def d collectionPrepend_def collectionGetValue_def
        sep envSet_def envName_posixHost oldBinWorld_def emptyWorld_def Let_def jsAnd_def)
qed

lemma path_run_literal:
  "fst (updateEnvironmentVariableCollection (posixHost pathFiles literalExpand) unsetConfig
       None (Some ''/proj'') oldBinWorld) = Inr [(''PATH'', ''/proj:/:'')]"
  using apply_path_default[of literalExpand "''/new/bin''"]
  by (auto simp: updateEnvironmentVariableCollection_def path_literal split: prod.splits)

lemma path_run_envFirst:
  "fst (updateEnvironmentVariableCollection (posixHost pathFiles envFirstExpand) unsetConfig
       None (Some ''/proj'') oldBinWorld) = Inr [(''PATH'', ''/proj:/:'')]"
  using apply_path_default[of envFirstExpand
      "envFirstValue (processEnv oldBinWorld) ''PATH''
         (envFirstValue (processEnv oldBinWorld) ''PATH'' ''/new/bin'')"]
  by (auto simp: updateEnvironmentVariableCollection_def path_envFirst split: prod.splits)

section \<open>The statements of the specification\<close>

text \<open>
  C1. The layers are the maps of the files that parse, in the order of the paths (root
  to leaf). If a layer \<open>L\<close> binds the key \<open>k\<close> to \<open>v\<close> and no later layer binds
  \<open>k\<close>, then the map \<open>merged\<close> that the loop of \<open>parseEnvFiles\<close> builds binds \<open>k\<close>
  to \<open>v\<close>, whatever the earlier layers bind it to: the latest layer wins.
\<close>

theorem parseEnvFiles_latest_layer_wins:
  assumes layers: "List.map_filter (readAndParse x) paths = pre @ L # post"
    and keys: "distinct (map fst L)"
    and defined: "map_of L k = Some v"
    and later: "\<forall>M \<in> set post. k \<notin> fst ` set M"
  shows "map_of (fst (parseEnvFiles_loop x paths ([], console))) k = Some v"
proof -
  have "fst (parseEnvFiles_loop x paths ([], console)) =
        foldl assignAll (assignAll (foldl assignAll [] pre) L) post"
    by (simp add: parseEnvFiles_loop_merge layers)
  then show ?thesis
    using assignAll_other_layers[OF later] assignAll_distinct_layer[OF keys defined] by simp
qed

theorem parseEnvFiles_latest_layer_wins_witness:
  "List.map_filter (readAndParse (posixHost scenarioFiles literalExpand)) [''/.env'', ''/proj/.env'']
     = [[(''A'', ''1'')]] @ [(''A'', ''2''), (''B'', ''3'')] # []
   \<and> map_of [(''A'', ''1'')] ''A'' = Some ''1''
   \<and> map_of (fst (parseEnvFiles_loop (posixHost scenarioFiles literalExpand)
                 [''/.env'', ''/proj/.env''] ([], []))) ''A'' = Some ''2''"
proof -
  have l: "List.map_filter (readAndParse (posixHost scenarioFiles literalExpand)) [''/.env'', ''/proj/.env'']
     = [[(''A'', ''1'')]] @ [(''A'', ''2''), (''B'', ''3'')] # []"
    by (simp add: List.map_filter_simps scenario_root scenario_proj)
  have d: "distinct (map fst [(''A'', ''2''), (''B'', ''3'')])" by simp
  have v: "map_of [(''A'', ''2''), (''B'', ''3'')] ''A'' = Some ''2''" by simp
  have p: "\<forall>M \<in> set ([] :: EnvMap list). ''A'' \<notin> fst ` set M" by simp
  show ?thesis
    using l parseEnvFiles_latest_layer_wins[OF l d v p, of "[]"] by simp
qed

text \<open>
  C2. The README describes the strategy \<open>prepend\<close> as "prepend the configured value
  before the system value with the path separator" and \<open>append\<close> as its mirror
  image, so that \<open>/new/bin\<close> over the current value \<open>/old/bin\<close> gives
  \<open>/new/bin:/old/bin\<close>. The function does not do that. Run in the folder \<open>/proj\<close>
  whose \<open>.env\<close> sets \<open>LIBS=/new/bin\<close>, with \<open>LIBS\<close> under the strategy and
  \<open>prependCwdComponentsToPath\<close> false, in a world where the collection holds
  \<open>/old/bin\<close> for \<open>LIBS\<close> and \<open>process.env\<close> has no \<open>LIBS\<close>,
  \<open>updateEnvironmentVariableCollection\<close> returns, stores in the collection and
  writes to \<open>process.env\<close> the value \<open>/new/bin:\<close> for prepend and
  \<open>:/new/bin\<close> for append, with either stand-in for dotenv-expand: the separator is
  there because the current value is not empty, the current value itself is not. When
  \<open>process.env\<close> holds \<open>/old/bin\<close> for \<open>LIBS\<close> as well, the result is
  \<open>/new/bin:\<close> again, or \<open>/old/bin:\<close>, without the configured value, when
  dotenv-expand prefers the value of \<open>process.env\<close>. With no setting set and
  \<open>PATH=/new/bin\<close> in the file, the value returned for \<open>PATH\<close> is
  \<open>/proj:/:\<close>: the block under \<open>prependPaths\<close> overwrites the mutator that the
  loop stored.
\<close>

theorem prepend_drops_current_value:
  "updateEnvironmentVariableCollection (posixHost libsFiles literalExpand) (mergeConfig StrategyPrepend)
       None (Some ''/proj'') (reloadedWorld MutatorPrepend ''/old/bin'')
     = (Inr [(''LIBS'', ''/new/bin:'')], libsWorld MutatorPrepend ''/new/bin:'')
   \<and> updateEnvironmentVariableCollection (posixHost libsFiles envFirstExpand) (mergeConfig StrategyPrepend)
       None (Some ''/proj'') (reloadedWorld MutatorPrepend ''/old/bin'')
     = (Inr [(''LIBS'', ''/new/bin:'')], libsWorld MutatorPrepend ''/new/bin:'')
   \<and> updateEnvironmentVariableCollection (posixHost libsFiles literalExpand) (mergeConfig StrategyAppend)
       None (Some ''/proj'') (reloadedWorld MutatorAppend ''/old/bin'')
     = (Inr [(''LIBS'', '':/new/bin'')], libsWorld MutatorAppend '':/new/bin'')
   \<and> updateEnvironmentVariableCollection (posixHost libsFiles literalExpand) (mergeConfig StrategyPrepend)
       None (Some ''/proj'') (libsWorld MutatorPrepend ''/old/bin'')
     = (Inr [(''LIBS'', ''/new/bin:'')], libsWorld MutatorPrepend ''/new/bin:'')
   \<and> updateEnvironmentVariableCollection (posixHost libsFiles envFirstExpand) (mergeConfig StrategyPrepend)
       None (Some ''/proj'') (libsWorld MutatorPrepend ''/old/bin'')
     = (Inr [(''LIBS'', ''/old/bin:'')], libsWorld MutatorPrepend ''/old/bin:'')
   \<and> fst (updateEnvironmentVariableCollection (posixHost pathFiles literalExpand) unsetConfig
       None (Some ''/proj'') oldBinWorld) = Inr [(''PATH'', ''/proj:/:'')]
   \<and> fst (updateEnvironmentVariableCollection (posixHost pathFiles envFirstExpand) unsetConfig
       None (Some ''/proj'') oldBinWorld) = Inr [(''PATH'', ''/proj:/:'')]"
proof -
  note s = libsWorld_def reloadedWorld_def emptyWorld_def currentValue_def collectionGetValue_def
    jsAnd_def envFirstValue_def Let_def
  have a: "updateEnvironmentVariableCollection (posixHost libsFiles literalExpand) (mergeConfig StrategyPrepend)
       None (Some ''/proj'') (reloadedWorld MutatorPrepend ''/old/bin'')
     = (Inr [(''LIBS'', ''/new/bin:'')], libsWorld MutatorPrepend ''/new/bin:'')"
    by (simp add: run_literal_prepend s)
  have b: "updateEnvironmentVariableCollection (posixHost libsFiles envFirstExpand) (mergeConfig StrategyPrepend)
       None (Some ''/proj'') (reloadedWorld MutatorPrepend ''/old/bin'')
     = (Inr [(''LIBS'', ''/new/bin:'')], libsWorld MutatorPrepend ''/new/bin:'')"
    by (simp add: run_envFirst_prepend s)
  have c: "updateEnvironmentVariableCollection (posixHost libsFiles literalExpand) (mergeConfig StrategyAppend)
       None (Some ''/proj'') (reloadedWorld MutatorAppend ''/old/bin'')
     = (Inr [(''LIBS'', '':/new/bin'')], libsWorld MutatorAppend '':/new/bin'')"
    by (simp add: run_literal_append s)
  have d: "updateEnvironmentVariableCollection (posixHost libsFiles literalExpand) (mergeConfig StrategyPrepend)
       None (Some ''/proj'') (libsWorld MutatorPrepend ''/old/bin'')
     = (Inr [(''LIBS'', ''/new/bin:'')], libsWorld MutatorPrepend ''/new/bin:'')"
    by (simp add: run_literal_prepend s)
  have e: "updateEnvironmentVariableCollection (posixHost libsFiles envFirstExpand) (mergeConfig StrategyPrepend)
       None (Some ''/proj'') (libsWorld MutatorPrepend ''/old/bin'')
     = (Inr [(''LIBS'', ''/old/bin:'')], libsWorld MutatorPrepend ''/old/bin:'')"
    by (simp add: run_envFirst_prepend s)
  show ?thesis using a b c d e path_run_literal path_run_envFirst by blast
qed

text \<open>
  C3. \<open>updateEnvironmentVariableCollection\<close> run again and again with the same
  folder, files and configuration (\<open>/proj/.env\<close> sets \<open>LIBS=/new/bin\<close>,
  \<open>LIBS\<close> is under the strategy \<open>prepend\<close>), each run in the world that the run
  before it left and the first in the empty world. The first run yields \<open>/new/bin\<close>
  and the second \<open>/new/bin:\<close>, whichever of the two stand-ins for dotenv-expand is
  used: the second run reads the mutator of the first as the current value and adds a
  separator for it. When dotenv-expand prefers the value that \<open>process.env\<close> holds,
  every run takes the value the last run wrote to \<open>process.env\<close> as the configured
  one and adds a separator: the third run yields \<open>/new/bin::\<close> and the fourth
  \<open>/new/bin:::\<close>. The value of a key under \<open>prepend\<close> grows from run to run.
\<close>

theorem repeated_runs_grow:
  "updateEnvironmentVariableCollection (posixHost libsFiles envFirstExpand) (mergeConfig StrategyPrepend)
       None (Some ''/proj'') emptyWorld
     = (Inr [(''LIBS'', ''/new/bin'')], libsWorld MutatorPrepend ''/new/bin'')
   \<and> updateEnvironmentVariableCollection (posixHost libsFiles envFirstExpand) (mergeConfig StrategyPrepend)
       None (Some ''/proj'') (libsWorld MutatorPrepend ''/new/bin'')
     = (Inr [(''LIBS'', ''/new/bin:'')], libsWorld MutatorPrepend ''/new/bin:'')
   \<and> updateEnvironmentVariableCollection (posixHost libsFiles envFirstExpand) (mergeConfig StrategyPrepend)
       None (Some ''/proj'') (libsWorld MutatorPrepend ''/new/bin:'')
     = (Inr [(''LIBS'', ''/new/bin::'')], libsWorld MutatorPrepend ''/new/bin::'')
   \<and> updateEnvironmentVariableCollection (posixHost libsFiles envFirstExpand) (mergeConfig StrategyPrepend)
       None (Some ''/proj'') (libsWorld MutatorPrepend ''/new/bin::'')
     = (Inr [(''LIBS'', ''/new/bin:::'')], libsWorld MutatorPrepend ''/new/bin:::'')
   \<and> updateEnvironmentVariableCollection (posixHost libsFiles literalExpand) (mergeConfig StrategyPrepend)
       None (Some ''/proj'') emptyWorld
     = (Inr [(''LIBS'', ''/new/bin'')], libsWorld MutatorPrepend ''/new/bin'')
   \<and> updateEnvironmentVariableCollection (posixHost libsFiles literalExpand) (mergeConfig StrategyPrepend)
       None (Some ''/proj'') (libsWorld MutatorPrepend ''/new/bin'')
     = (Inr [(''LIBS'', ''/new/bin:'')], libsWorld MutatorPrepend ''/new/bin:'')"
proof -
  note s = libsWorld_def emptyWorld_def currentValue_def collectionGetValue_def jsAnd_def
    envFirstValue_def Let_def
  have e1: "updateEnvironmentVariableCollection (posixHost libsFiles envFirstExpand) (mergeConfig StrategyPrepend)
       None (Some ''/proj'') emptyWorld
     = (Inr [(''LIBS'', ''/new/bin'')], libsWorld MutatorPrepend ''/new/bin'')"
    by (simp add: run_envFirst_prepend s)
  have e2: "updateEnvironmentVariableCollection (posixHost libsFiles envFirstExpand) (mergeConfig StrategyPrepend)
       None (Some ''/proj'') (libsWorld MutatorPrepend ''/new/bin'')
     = (Inr [(''LIBS'', ''/new/bin:'')], libsWorld MutatorPrepend ''/new/bin:'')"
    by (simp add: run_envFirst_prepend s)
  have e3: "updateEnvironmentVariableCollection (posixHost libsFiles envFirstExpand) (mergeConfig StrategyPrepend)
       None (Some ''/proj'') (libsWorld MutatorPrepend ''/new/bin:'')
     = (Inr [(''LIBS'', ''/new/bin::'')], libsWorld MutatorPrepend ''/new/bin::'')"
    by (simp add: run_envFirst_prepend s)
  have e4: "updateEnvironmentVariableCollection (posixHost libsFiles envFirstExpand) (mergeConfig StrategyPrepend)
       None (Some ''/proj'') (libsWorld MutatorPrepend ''/new/bin::'')
     = (Inr [(''LIBS'', ''/new/bin:::'')], libsWorld MutatorPrepend ''/new/bin:::'')"
    by (simp add: run_envFirst_prepend s)
  have l1: "updateEnvironmentVariableCollection (posixHost libsFiles literalExpand) (mergeConfig StrategyPrepend)
       None (Some ''/proj'') emptyWorld
     = (Inr [(''LIBS'', ''/new/bin'')], libsWorld MutatorPrepend ''/new/bin'')"
    by (simp add: run_literal_prepend s)
  have l2: "updateEnvironmentVariableCollection (posixHost libsFiles literalExpand) (mergeConfig StrategyPrepend)
       None (Some ''/proj'') (libsWorld MutatorPrepend ''/new/bin'')
     = (Inr [(''LIBS'', ''/new/bin:'')], libsWorld MutatorPrepend ''/new/bin:'')"
    by (simp add: run_literal_prepend s)
  show ?thesis using e1 e2 e3 e4 l1 l2 by blast
qed

text \<open>
  C4 (amended). For every target map, base map and world at entry: when
  \<open>expandVariables\<close> returns normally, the world is the one at entry, so every entry
  of \<open>process.env\<close> that it touched has its prior value and the keys that were absent
  are absent again. This needs three assumptions. dotenv-expand writes to
  \<open>process.env\<close> only variables named by keys of the map it is given
  (\<open>writesOnlyParsedKeys\<close>). No two different keys of the base map and the target map
  name the same variable of \<open>process.env\<close>: on Windows the names are
  case-insensitive, and a second key of the same variable is remembered with the value
  the first one wrote. And every key of the two maps that is the name of a member of
  \<open>Object.prototype\<close> is set in \<open>process.env\<close> at entry: when it is unset,
  \<open>process.env[key]\<close> reads the inherited member, which is not \<open>undefined\<close>, and
  the restore loop writes its text back. When dotenv-expand throws, the restore loop
  does not run: there is no \<open>finally\<close>.
\<close>

theorem expandVariables_restores_on_return:
  assumes frame: "writesOnlyParsedKeys x"
    and names: "inj_on (envName x) (fst ` set baseEnv \<union> fst ` set m)"
    and members: "\<forall>k \<in> fst ` set baseEnv \<union> fst ` set m.
                    k \<in> set objectPrototypeNames \<longrightarrow> processEnv w (envName x k) \<noteq> None"
    and ret: "expandVariables x m baseEnv w = (Inr out, w')"
  shows "w' = w"
  using frame names members ret by (rule expandVariables_return_world)

theorem expandVariables_restores_on_return_witness:
  "writesOnlyParsedKeys (posixHost [] literalExpand)
   \<and> expandVariables (posixHost [] literalExpand) [(''A'', Str ''x'')] [(''B'', ''1'')]
         (emptyWorld\<lparr>processEnv := [''B'' \<mapsto> ''0'']\<rparr>)
       = (Inr [(''A'', ''x'')], emptyWorld\<lparr>processEnv := [''B'' \<mapsto> ''0'']\<rparr>)"
proof -
  let ?x = "posixHost [] literalExpand"
  let ?w = "emptyWorld\<lparr>processEnv := [''B'' \<mapsto> ''0'']\<rparr>"
  have f: "writesOnlyParsedKeys ?x" by (rule writesOnlyParsedKeys_literalExpand)
  have n: "inj_on (envName ?x) (fst ` set [(''B'', ''1'')] \<union> fst ` set [(''A'', Str ''x'')])"
    by (simp add: envName_posixHost)
  have m: "\<forall>k \<in> fst ` set [(''B'', ''1'')] \<union> fst ` set [(''A'', Str ''x'')].
             k \<in> set objectPrototypeNames \<longrightarrow> processEnv ?w (envName ?x k) \<noteq> None"
    by (simp add: objectPrototypeNames_def)
  obtain r w' where e: "expandVariables ?x [(''A'', Str ''x'')] [(''B'', ''1'')] ?w = (r, w')"
    by (cases "expandVariables ?x [(''A'', Str ''x'')] [(''B'', ''1'')] ?w")
  have r: "r = Inr [(''A'', ''x'')]"
    using e
    by (simp add: expandVariables_def posixHost_def literalExpand_def spread_def assignAll_def
        Let_def rememberParsed_def)
  show ?thesis
    using f expandVariables_restores_on_return[OF f n m e[unfolded r]] e r by simp
qed

theorem expandVariables_not_restored_counterexample:
  "fst (expandVariables (posixHost [] failingExpand) [(''A'', Str ''x'')] [(''B'', ''1'')] emptyWorld)
     = Inl ExpandError
   \<and> processEnv emptyWorld ''B'' = None
   \<and> processEnv (snd (expandVariables (posixHost [] failingExpand) [(''A'', Str ''x'')] [(''B'', ''1'')]
                        emptyWorld)) ''B'' = Some ''1''
   \<and> fst (expandVariables (posixHost [] literalExpand) [(''A'', Str ''1'')] [(''toString'', ''x'')] emptyWorld)
       = Inr [(''A'', ''1'')]
   \<and> processEnv emptyWorld ''toString'' = None
   \<and> processEnv (snd (expandVariables (posixHost [] literalExpand) [(''A'', Str ''1'')] [(''toString'', ''x'')]
                        emptyWorld)) ''toString'' = Some ''function toString() { [native code] }''
   \<and> fst (expandVariables win32Host [(''PATH'', Str ''q'')] [(''Path'', ''p'')]
            (emptyWorld\<lparr>processEnv := [''PATH'' \<mapsto> ''sys'']\<rparr>)) = Inr [(''PATH'', ''q'')]
   \<and> processEnv (snd (expandVariables win32Host [(''PATH'', Str ''q'')] [(''Path'', ''p'')]
                        (emptyWorld\<lparr>processEnv := [''PATH'' \<mapsto> ''sys'']\<rparr>))) ''PATH'' = Some ''p''"
proof -
  have a: "expandVariables (posixHost [] failingExpand) [(''A'', Str ''x'')] [(''B'', ''1'')] emptyWorld
           = (Inl ExpandError, emptyWorld\<lparr>processEnv := [''B'' \<mapsto> ''1'']\<rparr>)"
    by (simp add: expandVariables_def posixHost_def failingExpand_def emptyWorld_def spread_def
        assignAll_def Let_def rememberParsed_def envSet_def envName_def)
  have b: "fst (expandVariables (posixHost [] literalExpand) [(''A'', Str ''1'')] [(''toString'', ''x'')] emptyWorld)
       = Inr [(''A'', ''1'')]"
    by (simp add: expandVariables_def posixHost_def literalExpand_def spread_def assignAll_def
        Let_def rememberParsed_def split: prod.splits)
  have c: "processEnv (snd (expandVariables (posixHost [] literalExpand) [(''A'', Str ''1'')] [(''toString'', ''x'')]
                        emptyWorld)) ''toString'' = Some ''function toString() { [native code] }''"
    by (simp add: expandVariables_def posixHost_def literalExpand_def emptyWorld_def spread_def
        assignAll_def Let_def rememberParsed_def rememberOriginal_def restoreOriginals_def
        envSet_def envDelete_def envGet_def envName_def objectPrototypeNames_def)
  have n1: "envName win32Host ''Path'' = ''PATH''" and n2: "envName win32Host ''PATH'' = ''PATH''"
    by (simp_all add: envName_def win32Host_def posixHost_def upperChar_def)
  have lw: "dotenvExpand win32Host [(''PATH'', Str ''q'')] [''PATH'' \<mapsto> ''p'']
            = (Inr (Some [(''PATH'', ''q'')]), [''PATH'' \<mapsto> ''p''])"
    by (simp add: win32Host_def posixHost_def literalExpandWin_def upperChar_def)
  have de: "expandVariables win32Host [(''PATH'', Str ''q'')] [(''Path'', ''p'')]
              (emptyWorld\<lparr>processEnv := [''PATH'' \<mapsto> ''sys'']\<rparr>)
            = (Inr [(''PATH'', ''q'')], emptyWorld\<lparr>processEnv := [''PATH'' \<mapsto> ''p'']\<rparr>)"
    by (simp add: expandVariables_def emptyWorld_def spread_def assignAll_def Let_def
        rememberParsed_def rememberOriginal_def restoreOriginals_def
        envSet_def envDelete_def envGet_def n1 n2 lw)
  have d: "fst (expandVariables win32Host [(''PATH'', Str ''q'')] [(''Path'', ''p'')]
            (emptyWorld\<lparr>processEnv := [''PATH'' \<mapsto> ''sys'']\<rparr>)) = Inr [(''PATH'', ''q'')]"
    by (simp add: de)
  have e: "processEnv (snd (expandVariables win32Host [(''PATH'', Str ''q'')] [(''Path'', ''p'')]
                        (emptyWorld\<lparr>processEnv := [''PATH'' \<mapsto> ''sys'']\<rparr>))) ''PATH'' = Some ''p''"
    by (simp add: de)
  have z: "processEnv emptyWorld ''B'' = None" "processEnv emptyWorld ''toString'' = None"
    by (simp_all add: emptyWorld_def)
  show ?thesis using a b c d e z by simp
qed

text \<open>
  C5. \<open>getParentDirectories\<close> is total: its loop ends at the fixed point of
  \<open>dirname\<close>, the root. But for every start path the list it returns begins with the
  resolved start path and ends with the root: the loop pushes the current directory
  and then climbs, and the list is never reversed. For \<open>/a/b\<close> it returns \<open>/a/b\<close>,
  \<open>/a\<close>, \<open>/\<close>, where the specification, and the function's own comment ("in
  order from root to the given path (parents first)"), say \<open>/\<close>, \<open>/a\<close>, \<open>/a/b\<close>.
\<close>

theorem getParentDirectories_leaf_first:
  "getParentDirectories x startPath \<noteq> []
   \<and> hd (getParentDirectories x startPath) = pathResolve x startPath
   \<and> dirname (last (getParentDirectories x startPath)) = last (getParentDirectories x startPath)
   \<and> getParentDirectories (posixHost [] literalExpand) ''/a/b'' = [''/a/b'', ''/a'', ''/'']"
proof -
  have "getParentDirectories (posixHost [] literalExpand) ''/a/b'' = [''/a/b'', ''/a'', ''/'']"
    by (simp add: getParentDirectories_def posixHost_def getParentDirectories_loop_unfold
      dirname_a_b dirname_a dirname_root)
  then show ?thesis
    using getParentDirectories_loop_ends[of "pathResolve x startPath"]
    by (simp add: getParentDirectories_def)
qed

text \<open>
  C6 (amended). For every start directory and file name, \<open>findEnvFilesUpwards\<close>
  returns the files that exist, directory by directory from the root down to the start
  directory (the chain of \<open>getParentDirectories\<close>, reversed), and within one
  directory the plain variant \<open>dir/fileName\<close> before the variant
  \<open>dir/.vscode/fileName\<close>: the loop probes the \<open>.vscode\<close> variant first and puts
  each hit in front of the list.
\<close>

theorem findEnvFilesUpwards_order:
  "findEnvFilesUpwards x startFolderFsPath fileName =
     concat (map (\<lambda>dir. filter (existsSync x)
                   [pathJoin x [dir, fileName], pathJoin x [dir, ''.vscode'', fileName]])
               (rev (getParentDirectories x startFolderFsPath)))"
  by (simp add: findEnvFilesUpwards_def getParentDirectories_def findEnvFilesUpwards_loop_chain)

theorem findEnvFilesUpwards_order_counterexample:
  "findEnvFilesUpwards
     (posixHost [(''/.env'', Some ''A=1''), (''/proj/.env'', Some ''A=2''),
                 (''/proj/.vscode/.env'', Some ''A=3'')] literalExpand)
     ''/proj'' ''.env''
   = [''/.env'', ''/proj/.env'', ''/proj/.vscode/.env'']"
  unfolding findEnvFilesUpwards_order
  by (simp add: getParentDirectories_def posixHost_def getParentDirectories_loop_unfold
      dirname_proj dirname_root posixJoin_def joinTwo_def)

text \<open>
  C7. For an absent or empty allow-list \<open>filterEnvByAllowed\<close> returns the map it is
  given. For any other allow-list it copies \<open>env[k]\<close> for every name \<open>k\<close> of the
  list with \<open>env[k] !== undefined\<close>, and \<open>env[k]\<close> is read through the prototype
  of \<open>env\<close>: for \<open>env = {A: "1"}\<close> and the allow-list \<open>["constructor", "A"]\<close>
  the result has the key \<open>constructor\<close>, which \<open>env\<close> does not have, and it is
  bound to a function, not to a string, although the result is declared an \<open>EnvMap\<close>
  (\<open>{ [k: string]: string }\<close>) and the function is to pick variables of \<open>env\<close>.
\<close>

theorem filterEnvByAllowed_inherited_member:
  "filterEnvByAllowed env None = jsObject env
   \<and> filterEnvByAllowed env (Some []) = jsObject env
   \<and> filterEnvByAllowed [(''A'', ''1'')] (Some [''constructor'', ''A''])
       = [(''constructor'', Member ''constructor''), (''A'', Str ''1'')]"
  by (simp add: filterEnvByAllowed_def jsGet_def jsSet_def objectPrototypeNames_def)

text \<open>
  C8. For every list of paths, \<open>parseEnvFiles\<close> does exactly what it does on the files
  that parse: its result is \<open>expandVariables\<close> of the merge of their maps, a file whose
  read or parse throws adds nothing to the merge and one line to the console, and no
  such failure makes \<open>parseEnvFiles\<close> throw.
\<close>

theorem parseEnvFiles_skips_failed_files:
  "parseEnvFiles x paths expansionBase w =
     expandVariables x
       (jsObject (foldl assignAll [] (List.map_filter (readAndParse x) paths)))
       expansionBase
       (w\<lparr>errorLog := errorLog w @ map failedToParse (filter (\<lambda>p. readAndParse x p = None) paths)\<rparr>)"
  by (simp add: parseEnvFiles_def parseEnvFiles_loop_merge)

theorem parseEnvFiles_skips_failed_files_witness:
  "parseEnvFiles (posixHost unreadableFiles literalExpand) [''/.env'', ''/proj/.env''] [] emptyWorld
     = (Inr [(''A'', ''2''), (''B'', ''3'')],
        emptyWorld\<lparr>errorLog := [''Environ: failed to parse /.env:'']\<rparr>)"
proof -
  have d: "dotenvExpand (posixHost unreadableFiles literalExpand) = literalExpand"
    by (simp add: posixHost_def)
  show ?thesis
    unfolding parseEnvFiles_skips_failed_files
    by (simp add: List.map_filter_simps unreadable_root unreadable_proj
        expandVariables_literalExpand objectPrototypeNames_def
        spread_def assignAll_def failedToParse_def emptyWorld_def)
qed

text \<open>
  C9 (amended). The result of \<open>getConfiguredEnvironment\<close> and the world it leaves
  are a function of the folder, the files, the configuration, the allow-list and the
  world at entry. When it returns normally it leaves the collection as it was and
  \<open>process.env\<close> as it was at every variable that no key of \<open>pathResolves\<close>
  names; a variable that a key \<open>k\<close> of \<open>pathResolves\<close> names is left set to the
  resolved value, the one that \<open>combined\<close> binds \<open>k\<close> to; so with \<open>pathResolves\<close>
  empty \<open>process.env\<close> is unchanged. The assumptions: dotenv-expand writes to
  \<open>process.env\<close> only variables named by keys of the map it is given
  (\<open>writesOnlyParsedKeys\<close>); the keys of \<open>presets\<close>, of \<open>pathResolves\<close>, of the
  env files and of \<open>combined\<close> lie in a set \<open>N\<close> of names none of which is the name
  of a member of \<open>Object.prototype\<close> and no two of which name the same variable of
  \<open>process.env\<close> (Windows ignores the case); and no name in the allow-list is the
  name of a member of \<open>Object.prototype\<close>.
\<close>

theorem getConfiguredEnvironment_process_env:
  assumes frame: "writesOnlyParsedKeys x"
    and names: "inj_on (envName x) N" and plain: "N \<inter> set objectPrototypeNames = {}"
    and kp: "fst ` set (configGet (presets cfg) []) \<subseteq> N"
    and kr: "fst ` set (configGet (pathResolves cfg) []) \<subseteq> N"
    and kf: "mergedFileKeys x (findEnvFilesUpwards x folder (configGet (envFileName cfg) DEFAULT_ENV_FILE_NAME)) \<subseteq> N"
    and kc: "fst ` set (cCombined conf) \<subseteq> N"
    and ka: "allowedNames allowedForFolder \<inter> set objectPrototypeNames = {}"
    and ret: "getConfiguredEnvironment x cfg allowedForFolder folder w = (Inr conf, w')"
  shows "collection w' = collection w
       \<and> (\<forall>n. n \<notin> envName x ` fst ` set (configGet (pathResolves cfg) []) \<longrightarrow>
               processEnv w' n = processEnv w n)
       \<and> (\<forall>k \<in> fst ` set (configGet (pathResolves cfg) []).
               processEnv w' (envName x k) = map_of (cCombined conf) k)
       \<and> (configGet (pathResolves cfg) [] = [] \<longrightarrow> processEnv w' = processEnv w)"
proof -
  note g = getConfiguredEnvironment_world[OF frame names plain kp kr kf kc ka ret]
  have a: "\<forall>n. n \<notin> envName x ` fst ` set (configGet (pathResolves cfg) []) \<longrightarrow>
               processEnv w' n = processEnv w n"
    using g(2) by blast
  have b: "\<forall>k \<in> fst ` set (configGet (pathResolves cfg) []).
               processEnv w' (envName x k) = map_of (cCombined conf) k"
    using g(3) by blast
  have c: "configGet (pathResolves cfg) [] = [] \<longrightarrow> processEnv w' = processEnv w"
    using a by (auto simp: fun_eq_iff)
  show ?thesis using g(1) a b c by blast
qed

theorem getConfiguredEnvironment_process_env_witness:
  "writesOnlyParsedKeys (posixHost scenarioFiles literalExpand)
   \<and> fst (getConfiguredEnvironment (posixHost scenarioFiles literalExpand) toolsConfig None ''/proj'' emptyWorld)
       = Inr \<lparr>cPresets = [], cEnvFromFiles = [(''A'', ''2''), (''B'', ''3'')],
               cCombined = [(''TOOLS'', ''/opt/tools''), (''A'', ''2''), (''B'', ''3'')],
               cFiltered = [(''TOOLS'', ''/opt/tools''), (''A'', ''2''), (''B'', ''3'')],
               cAllowed = None\<rparr>
   \<and> processEnv (snd (getConfiguredEnvironment (posixHost scenarioFiles literalExpand) toolsConfig None
                        ''/proj'' emptyWorld)) ''A'' = processEnv emptyWorld ''A''
   \<and> processEnv (snd (getConfiguredEnvironment (posixHost scenarioFiles literalExpand) toolsConfig None
                        ''/proj'' emptyWorld)) ''TOOLS'' = Some ''/opt/tools''"
proof -
  let ?x = "posixHost scenarioFiles literalExpand"
  let ?N = "{''TOOLS'', ''A'', ''B''}"
  have f: "writesOnlyParsedKeys ?x" by (rule writesOnlyParsedKeys_literalExpand)
  have n: "inj_on (envName ?x) ?N" by (simp add: inj_on_def envName_posixHost)
  have p: "?N \<inter> set objectPrototypeNames = {}" by (simp add: objectPrototypeNames_def)
  have kp: "fst ` set (configGet (presets toolsConfig) []) \<subseteq> ?N"
    by (simp add: toolsConfig_def unsetConfig_def configGet_def)
  have pr: "fst ` set (configGet (pathResolves toolsConfig) []) = {''TOOLS''}"
    by (simp add: toolsConfig_def unsetConfig_def configGet_def)
  have kr: "fst ` set (configGet (pathResolves toolsConfig) []) \<subseteq> ?N" by (simp add: pr)
  have kf: "mergedFileKeys ?x (findEnvFilesUpwards ?x ''/proj''
              (configGet (envFileName toolsConfig) DEFAULT_ENV_FILE_NAME)) \<subseteq> ?N"
    by (simp add: toolsConfig_def unsetConfig_def configGet_def DEFAULT_ENV_FILE_NAME_def
        scenario_found mergedFileKeys_def scenario_root scenario_proj assignAll_def)
  have kc: "fst ` set (cCombined \<lparr>cPresets = [], cEnvFromFiles = [(''A'', ''2''), (''B'', ''3'')],
               cCombined = [(''TOOLS'', ''/opt/tools''), (''A'', ''2''), (''B'', ''3'')],
               cFiltered = [(''TOOLS'', ''/opt/tools''), (''A'', ''2''), (''B'', ''3'')],
               cAllowed = None\<rparr>) \<subseteq> ?N"
    by simp
  have ka: "allowedNames None \<inter> set objectPrototypeNames = {}" by (simp add: allowedNames_def)
  note t = getConfiguredEnvironment_process_env[OF f n p kp kr kf kc ka scenario_tools]
  have a: "processEnv (emptyWorld\<lparr>processEnv := [''TOOLS'' \<mapsto> ''/opt/tools'']\<rparr>) ''A'' = processEnv emptyWorld ''A''"
    using t[THEN conjunct2, THEN conjunct1, rule_format, of "''A''"]
    by (simp add: pr envName_posixHost)
  have b: "processEnv (emptyWorld\<lparr>processEnv := [''TOOLS'' \<mapsto> ''/opt/tools'']\<rparr>) ''TOOLS'' = Some ''/opt/tools''"
    using t[THEN conjunct2, THEN conjunct2, THEN conjunct1, rule_format, of "''TOOLS''"]
    by (simp add: pr envName_posixHost)
  show ?thesis using f a b by (simp only: scenario_tools fst_conv snd_conv)
qed

theorem getConfiguredEnvironment_changes_env_counterexample:
  "processEnv emptyWorld ''TOOLS'' = None
   \<and> processEnv (snd (getConfiguredEnvironment (posixHost scenarioFiles literalExpand) toolsConfig None
                        ''/proj'' emptyWorld)) ''TOOLS'' = Some ''/opt/tools''
   \<and> processEnv emptyWorld ''valueOf'' = None
   \<and> processEnv (snd (getConfiguredEnvironment (posixHost scenarioFiles literalExpand) valueOfConfig None
                        ''/proj'' emptyWorld)) ''valueOf'' = Some ''function valueOf() { [native code] }''"
proof -
  have a: "processEnv emptyWorld ''TOOLS'' = None" "processEnv emptyWorld ''valueOf'' = None"
    by (simp_all add: emptyWorld_def)
  have b: "processEnv (snd (getConfiguredEnvironment (posixHost scenarioFiles literalExpand) toolsConfig None
                        ''/proj'' emptyWorld)) ''TOOLS'' = Some ''/opt/tools''"
    by (simp add: scenario_tools)
  show ?thesis using a b scenario_valueOf by blast
qed

text \<open>
  C10. Whenever the filtered map is not empty and \<open>prependCwdComponentsToPath\<close> is
  enabled (which it is when the setting is not set), the reconciliation ends by storing
  a prepend mutator for \<open>PATH\<close> whose value is the chain of
  \<open>getParentDirectories\<close> of the workspace folder, joined by the path separator and
  followed by one more separator, and by writing that value to \<open>ensured.PATH\<close> and
  \<open>process.env.PATH\<close>; neither the filtered map nor the merge strategies need to
  mention \<open>PATH\<close>.
\<close>

theorem prependCwdComponents_sets_PATH:
  assumes "filtered \<noteq> []" and "configGet (prependCwdComponentsToPath cfg) True"
  shows "collection (snd (applyFiltered x cfg folder filtered w)) ''PATH'' =
           Some (Mutator MutatorPrepend
                  (joinWith (pathSeparator x) (getParentDirectories x folder) @ pathSeparator x))
       \<and> map_of (fst (applyFiltered x cfg folder filtered w)) ''PATH'' =
           Some (joinWith (pathSeparator x) (getParentDirectories x folder) @ pathSeparator x)
       \<and> processEnv (snd (applyFiltered x cfg folder filtered w)) ''PATH'' =
           Some (joinWith (pathSeparator x) (getParentDirectories x folder) @ pathSeparator x)"
proof -
  define strategies where "strategies = configGet (mergeStrategies cfg) DEFAULT_MERGE_STRATEGIES"
  obtain ensured w1 where l: "foldl (mergeVariable x strategies) ([], w) filtered = (ensured, w1)"
    by (cases "foldl (mergeVariable x strategies) ([], w) filtered")
  have "applyFiltered x cfg folder filtered w = prependCwdComponents x folder (ensured, w1)"
    using assms l by (simp add: applyFiltered_def Let_def strategies_def)
  then show ?thesis
    by (simp add: prependCwdComponents_world prependCwdComponents_ensured update_conv')
qed

theorem prependCwdComponents_sets_PATH_witness:
  "[(''A'', ''1'')] \<noteq> [] \<and> configGet (prependCwdComponentsToPath unsetConfig) True
   \<and> collection (snd (applyFiltered (posixHost [] literalExpand) unsetConfig ''/proj'' [(''A'', ''1'')] emptyWorld)) ''PATH''
       = Some (Mutator MutatorPrepend ''/proj:/:'')"
proof -
  have a: "[(''A'', ''1'')] \<noteq> ([] :: EnvMap)" by simp
  have b: "configGet (prependCwdComponentsToPath unsetConfig) True"
    by (simp add: configGet_def unsetConfig_def)
  have c: "getParentDirectories (posixHost [] literalExpand) ''/proj'' = [''/proj'', ''/'']"
    by (simp add: getParentDirectories_def posixHost_def getParentDirectories_loop_unfold
        dirname_proj dirname_root)
  have d: "pathSeparator (posixHost [] literalExpand) = '':''"
    by (simp add: pathSeparator_def posixHost_def)
  show ?thesis
    using a b prependCwdComponents_sets_PATH[OF a b, of "posixHost [] literalExpand" "''/proj''" emptyWorld]
    by (simp add: c d)
qed

end
